theory Spec2Isabelle
  imports Complex_Main "HOL-Library.Log_Nat"
begin

section \<open>Values shared by the scripts\<close>

text \<open>
  The exceptions that the modelled code paths can raise. A function that can raise returns
  \<open>py_error + 'a\<close>, with \<open>Inl\<close> for the exception.
\<close>

datatype py_error = ValueError | TypeError | ZeroDivisionError | OverflowError

text \<open>\<open>d.get(key, default)\<close>: an absent key is \<open>None\<close>.\<close>

definition get_or :: "'a option \<Rightarrow> 'a \<Rightarrow> 'a" where
  "get_or v dflt = (case v of None \<Rightarrow> dflt | Some x \<Rightarrow> x)"

subsection \<open>Numbers\<close>

text \<open>
  A JSON number is read as a Python \<open>int\<close> (a literal without fraction or exponent) or as a
  Python \<open>float\<close>. An \<open>int\<close> is an unbounded integer. A \<open>float\<close> is a binary64 double,
  carried as the rational number it denotes; every operation below returns \<open>fl\<close> of its
  exact result, which is the double that the interpreter computes. A \<open>PFloat\<close> whose value
  is not a double stands for no Python value; the properties are proved for those too.
  Infinities, NaN, the sign of zero and the upper end of the exponent range are not
  modelled: where Python would give \<open>inf\<close> or raise \<open>OverflowError\<close> (a result beyond the
  largest double, about \<open>1.8e308\<close>), the model carries the value rounded to 53 bits.
\<close>

datatype number = PInt int | PFloat rat

definition num_val :: "number \<Rightarrow> rat" where
  "num_val a = (case a of PInt n \<Rightarrow> of_int n | PFloat v \<Rightarrow> v)"

text \<open>Rounding to the nearest integer, a tie to the even neighbour.\<close>

definition round_half_even :: "rat \<Rightarrow> int" where
  "round_half_even x =
     (let f = \<lfloor>x\<rfloor>; r = x - of_int f
      in if r < 1 / 2 then f
         else if 1 / 2 < r then f + 1
         else if even f then f else f + 1)"

text \<open>
  \<open>fl x\<close> is the double nearest to \<open>x\<close>, a tie to the even significand: the result of every
  correctly rounded operation. For \<open>x > 0\<close>, \<open>binade x\<close> is the exponent \<open>e\<close> with
  \<open>pow2 e \<le> x < pow2 (e + 1)\<close>; a double has 53 significant bits, so its last bit weighs
  \<open>pow2 (e - 52)\<close>, and never less than \<open>pow2 (- 1074)\<close> (the subnormal range).
\<close>

definition pow2 :: "int \<Rightarrow> rat" where
  "pow2 e = (if 0 \<le> e then 2 ^ nat e else 1 / 2 ^ nat (- e))"

definition binade :: "rat \<Rightarrow> int" where
  "binade x = (if 1 \<le> x then bitlen \<lfloor>x\<rfloor> - 1 else - bitlen (\<lceil>1 / x\<rceil> - 1))"

definition quantum :: "rat \<Rightarrow> int" where
  "quantum x = max (binade x - 52) (- 1074)"

definition grid_round :: "int \<Rightarrow> rat \<Rightarrow> rat" where
  "grid_round q x = of_int (round_half_even (x / pow2 q)) * pow2 q"

definition fl_pos :: "rat \<Rightarrow> rat" where
  "fl_pos x = grid_round (quantum x) x"

definition fl :: "rat \<Rightarrow> rat" where
  "fl x = (if x = 0 then 0 else if 0 < x then fl_pos x else - fl_pos (- x))"

text \<open>The \<open>float\<close> that \<open>json.load\<close> makes of a decimal literal with the value \<open>x\<close>.\<close>

definition json_float :: "rat \<Rightarrow> number" where
  "json_float x = PFloat (fl x)"

text \<open>The operand of a float operation: an \<open>int\<close> is converted to the nearest double.\<close>

definition to_float :: "number \<Rightarrow> rat" where
  "to_float a = (case a of PInt n \<Rightarrow> fl (of_int n) | PFloat v \<Rightarrow> v)"

text \<open>
  \<open>a + b\<close> and \<open>a * b\<close>: exact on two \<open>int\<close>s, the rounded double otherwise.
\<close>

fun py_add :: "number \<Rightarrow> number \<Rightarrow> number" where
  "py_add (PInt m) (PInt n) = PInt (m + n)"
| "py_add a b = PFloat (fl (to_float a + to_float b))"

fun py_mul :: "number \<Rightarrow> number \<Rightarrow> number" where
  "py_mul (PInt m) (PInt n) = PInt (m * n)"
| "py_mul a b = PFloat (fl (to_float a * to_float b))"

text \<open>
  \<open>a / b\<close> for a divisor that is not zero: always a \<open>float\<close>; the quotient of two \<open>int\<close>s is
  rounded once, from the exact quotient. \<open>py_div\<close> adds the exception on a zero divisor.
\<close>

fun true_div :: "number \<Rightarrow> number \<Rightarrow> number" where
  "true_div (PInt m) (PInt n) = PFloat (fl (of_int m / of_int n))"
| "true_div a b = PFloat (fl (to_float a / to_float b))"

definition py_div :: "number \<Rightarrow> number \<Rightarrow> py_error + number" where
  "py_div a b = (if num_val b = 0 then Inl ZeroDivisionError else Inr (true_div a b))"

text \<open>\<open>a < b\<close> compares the exact values, also between an \<open>int\<close> and a \<open>float\<close>.\<close>

definition py_lt :: "number \<Rightarrow> number \<Rightarrow> bool" where
  "py_lt a b = (num_val a < num_val b)"

text \<open>\<open>int(x)\<close> truncates towards zero.\<close>

definition py_int :: "number \<Rightarrow> int" where
  "py_int a =
     (case a of PInt n \<Rightarrow> n | PFloat v \<Rightarrow> if 0 \<le> v then \<lfloor>v\<rfloor> else \<lceil>v\<rceil>)"

text \<open>\<open>round(x)\<close> rounds to the nearest integer, a tie to the even neighbour.\<close>

definition py_round :: "number \<Rightarrow> int" where
  "py_round a = (case a of PInt n \<Rightarrow> n | PFloat v \<Rightarrow> round_half_even v)"

text \<open>
  \<open>round(x, 2)\<close>: an \<open>int\<close> is returned as it is; a \<open>float\<close> is rounded, by its exact value
  and a tie to the even digit, to two decimal places, and the result is the double nearest to
  that decimal.
\<close>

definition py_round2 :: "number \<Rightarrow> number" where
  "py_round2 a =
     (case a of
        PInt n \<Rightarrow> PInt n
      | PFloat v \<Rightarrow> PFloat (fl (of_int (round_half_even (v * 100)) / 100)))"

text \<open>An accumulation \<open>total = 0; for x in xs: total += x\<close>.\<close>

definition py_sum :: "number list \<Rightarrow> number" where
  "py_sum xs = foldl py_add (PInt 0) xs"

definition is_int :: "number \<Rightarrow> bool" where
  "is_int a = (case a of PInt n \<Rightarrow> True | PFloat v \<Rightarrow> False)"

subsection \<open>Timestamps\<close>

text \<open>
  A \<open>datetime\<close> value: \<open>ordinal\<close> is the proleptic Gregorian day number of its date
  (\<open>date().toordinal()\<close>, taken in the value's own offset), \<open>usec\<close> the microseconds since
  midnight, \<open>utcoffset\<close> the offset from UTC in microseconds, \<open>None\<close> for a naive value.
  \<open>datetime.now()\<close> is always naive.
\<close>

record datetime =
  ordinal :: int
  usec :: int
  utcoffset :: "int option"

definition days_before_year :: "int \<Rightarrow> int" where
  "days_before_year y = (let p = y - 1 in p * 365 + p div 4 - p div 100 + p div 400)"

definition is_leap :: "int \<Rightarrow> bool" where
  "is_leap y = (y mod 4 = 0 \<and> (if y mod 100 = 0 then y mod 400 = 0 else True))"

definition days_before_month :: "int \<Rightarrow> nat \<Rightarrow> int" where
  "days_before_month y m =
     ([0, 31, 59, 90, 120, 151, 181, 212, 243, 273, 304, 334] ! (m - 1))
       + (if 2 < m \<and> is_leap y then 1 else 0)"

text \<open>The day number of a calendar date, for months 1 to 12.\<close>

definition ymd2ord :: "int \<Rightarrow> nat \<Rightarrow> int \<Rightarrow> int" where
  "ymd2ord y m d = days_before_year y + days_before_month y m + d"

definition naive_datetime :: "int \<Rightarrow> nat \<Rightarrow> int \<Rightarrow> int \<Rightarrow> int \<Rightarrow> int \<Rightarrow> datetime" where
  "naive_datetime y mo d h mi s =
     \<lparr>ordinal = ymd2ord y mo d, usec = ((h * 60 + mi) * 60 + s) * 1000000, utcoffset = None\<rparr>"

definition utc_datetime :: "int \<Rightarrow> nat \<Rightarrow> int \<Rightarrow> int \<Rightarrow> int \<Rightarrow> int \<Rightarrow> datetime" where
  "utc_datetime y mo d h mi s = (naive_datetime y mo d h mi s)\<lparr>utcoffset := Some 0\<rparr>"

definition local_usec :: "datetime \<Rightarrow> int" where
  "local_usec t = ordinal t * 86400000000 + usec t"

text \<open>
  \<open>a > b\<close> on datetimes: two naive values compare by their fields, two aware values by
  their UTC instants, and a naive value cannot be compared with an aware one.
\<close>

definition dt_gt :: "datetime \<Rightarrow> datetime \<Rightarrow> py_error + bool" where
  "dt_gt a b =
     (case utcoffset a of
        None \<Rightarrow> (case utcoffset b of
                   None \<Rightarrow> Inr (local_usec b < local_usec a)
                 | Some ob \<Rightarrow> Inl TypeError)
      | Some oa \<Rightarrow> (case utcoffset b of
                   None \<Rightarrow> Inl TypeError
                 | Some ob \<Rightarrow> Inr (local_usec b - ob < local_usec a - oa)))"

text \<open>\<open>t - timedelta(days=n)\<close>: the result must stay within years 1 to 9999.\<close>

definition minus_days :: "datetime \<Rightarrow> int \<Rightarrow> py_error + datetime" where
  "minus_days t n =
     (let d = ordinal t - n
      in if 1 \<le> d \<and> d \<le> 3652059 then Inr (t\<lparr>ordinal := d\<rparr>) else Inl OverflowError)"

subsection \<open>Meal records\<close>

text \<open>
  The JSON objects the scripts read. Every key that the code reads with \<open>.get\<close> is an
  optional field: \<open>None\<close> is an absent key, \<open>Some v\<close> a key present with a value of the
  schema's type.
\<close>

record macros =
  protein_g :: "number option"
  carbs_g :: "number option"
  fat_g :: "number option"
  fiber_g :: "number option"
  sugar_g :: "number option"

record micros =
  sodium_mg :: "number option"
  potassium_mg :: "number option"
  calcium_mg :: "number option"
  iron_mg :: "number option"
  vitamin_a_mcg :: "number option"
  vitamin_c_mg :: "number option"
  cholesterol_mg :: "number option"

text \<open>The \<open>nutrition\<close> object of a food item; the \<open>totals\<close> object of a meal extends it.\<close>

record nutrition =
  calories_kcal :: "number option"
  macros :: "macros option"
  micros :: "micros option"
  allergens :: "string list option"

record totals = nutrition +
  serving_total_g :: "number option"

record food_item =
  label :: "string option"
  confidence :: "number option"
  serving_est_g :: "number option"
  nutrition :: "nutrition option"

record image_meta =
  img_width :: "number option"
  img_height :: "number option"

record analysis =
  totals :: "totals option"
  composition :: "food_item list option"
  image_meta :: "image_meta option"

text \<open>
  \<open>consumedAt\<close> holds the result of
  \<open>datetime.fromisoformat(meal.get('consumedAt', '').replace('Z', '+00:00'))\<close>:
  \<open>None\<close> when that call raises \<open>ValueError\<close> (the key is absent or its text is not an
  ISO timestamp), the parsed value otherwise. A text ending in \<open>Z\<close> or carrying an offset
  parses to an aware value, a text without offset to a naive one.
\<close>

record meal =
  meal_id :: "string option"
  mealType :: "string option"
  name :: "string option"
  meal_notes :: "string option"
  consumedAt :: "datetime option"
  createdAt :: "datetime option"
  analysisData :: "analysis option"

text \<open>The empty dictionaries \<open>{}\<close> used as defaults.\<close>

definition empty_macros :: macros where
  "empty_macros =
     \<lparr>protein_g = None, carbs_g = None, fat_g = None, fiber_g = None, sugar_g = None\<rparr>"

definition empty_nutrition :: nutrition where
  "empty_nutrition = \<lparr>calories_kcal = None, macros = None, micros = None, allergens = None\<rparr>"

definition empty_totals :: totals where
  "empty_totals =
     \<lparr>calories_kcal = None, macros = None, micros = None, allergens = None,
      serving_total_g = None\<rparr>"

definition empty_analysis :: analysis where
  "empty_analysis = \<lparr>totals = None, composition = None, image_meta = None\<rparr>"

text \<open>
  The accessor chains that every script repeats:
  \<open>meal.get('analysisData', {}).get('totals', {})\<close> and so on.
\<close>

definition meal_totals :: "meal \<Rightarrow> totals" where
  "meal_totals m = get_or (totals (get_or (analysisData m) empty_analysis)) empty_totals"

definition meal_macros :: "meal \<Rightarrow> macros" where
  "meal_macros m = get_or (macros (meal_totals m)) empty_macros"

definition meal_composition :: "meal \<Rightarrow> food_item list" where
  "meal_composition m = get_or (composition (get_or (analysisData m) empty_analysis)) []"

text \<open>The numeric leaves of a record, with the default 0 of the accessors.\<close>

definition meal_calories :: "meal \<Rightarrow> number" where
  "meal_calories m = get_or (calories_kcal (meal_totals m)) (PInt 0)"

definition meal_protein :: "meal \<Rightarrow> number" where
  "meal_protein m = get_or (protein_g (meal_macros m)) (PInt 0)"

definition meal_carbs :: "meal \<Rightarrow> number" where
  "meal_carbs m = get_or (carbs_g (meal_macros m)) (PInt 0)"

definition meal_fat :: "meal \<Rightarrow> number" where
  "meal_fat m = get_or (fat_g (meal_macros m)) (PInt 0)"

definition meal_fiber :: "meal \<Rightarrow> number" where
  "meal_fiber m = get_or (fiber_g (meal_macros m)) (PInt 0)"

definition meal_sugar :: "meal \<Rightarrow> number" where
  "meal_sugar m = get_or (sugar_g (meal_macros m)) (PInt 0)"

section \<open>Meal tracker (\<open>meal_tracker.py\<close>)\<close>

text \<open>
  The state of \<open>MealTrackerCLI\<close>: the in-memory sequence \<open>self.meals\<close> and the decoded
  content of the JSON file it is saved to.
\<close>

record tracker =
  meals :: "meal list"
  data_file :: "meal list"

text \<open>
  \<open>save_data\<close> rewrites the file from the in-memory sequence. A failing write is caught and
  only reported, so the flag \<open>write_ok\<close> says whether the write went through.
\<close>

definition save_data :: "bool \<Rightarrow> tracker \<Rightarrow> tracker" where
  "save_data write_ok st = (if write_ok then st\<lparr>data_file := meals st\<rparr> else st)"

text \<open>\<open>str.capitalize()\<close> on ASCII text.\<close>

definition ascii_upper :: "char \<Rightarrow> char" where
  "ascii_upper c =
     (let n = (of_char c :: nat) in if 97 \<le> n \<and> n \<le> 122 then char_of (n - 32) else c)"

definition ascii_lower :: "char \<Rightarrow> char" where
  "ascii_lower c =
     (let n = (of_char c :: nat) in if 65 \<le> n \<and> n \<le> 90 then char_of (n + 32) else c)"

definition capitalize :: "string \<Rightarrow> string" where
  "capitalize s = (case s of [] \<Rightarrow> [] | c # cs \<Rightarrow> ascii_upper c # map ascii_lower cs)"

text \<open>
  \<open>add_meal\<close>. The three calls of \<open>datetime.now()\<close> are the parameters \<open>stamp\<close> (the
  rendered POSIX timestamp that becomes the id), \<open>t_consumed\<close> and \<open>t_created\<close>.
\<close>

definition add_meal ::
  "string \<Rightarrow> datetime \<Rightarrow> datetime \<Rightarrow> bool \<Rightarrow>
   string \<Rightarrow> number \<Rightarrow> number \<Rightarrow> number \<Rightarrow> number \<Rightarrow> string \<Rightarrow> tracker \<Rightarrow> tracker" where
  "add_meal stamp t_consumed t_created write_ok meal_type calories protein carbs fat notes st =
     (let meal =
        \<lparr>meal_id = Some stamp,
         mealType = Some meal_type,
         name = Some (if notes \<noteq> [] then notes else capitalize meal_type @ '' meal''),
         meal_notes = Some notes,
         consumedAt = Some t_consumed,
         createdAt = Some t_created,
         analysisData = Some
           \<lparr>totals = Some
              \<lparr>calories_kcal = Some calories,
               macros = Some
                 \<lparr>protein_g = Some protein, carbs_g = Some carbs, fat_g = Some fat,
                  fiber_g = Some (PInt 0), sugar_g = Some (PInt 0)\<rparr>,
               micros = Some
                 \<lparr>sodium_mg = Some (PInt 0), potassium_mg = Some (PInt 0), calcium_mg = Some (PInt 0),
                  iron_mg = Some (PInt 0), vitamin_a_mcg = Some (PInt 0), vitamin_c_mg = Some (PInt 0),
                  cholesterol_mg = Some (PInt 0)\<rparr>,
               allergens = Some [],
               serving_total_g = Some (PInt 0)\<rparr>,
            composition = Some [],
            image_meta = Some \<lparr>img_width = Some (PInt 0), img_height = Some (PInt 0)\<rparr>\<rparr>\<rparr>
      in save_data write_ok (st\<lparr>meals := meal # meals st\<rparr>))"

text \<open>\<open>delete_last_meal\<close>: \<open>self.meals.pop(0)\<close> removes the front record.\<close>

definition delete_last_meal :: "bool \<Rightarrow> tracker \<Rightarrow> tracker" where
  "delete_last_meal write_ok st =
     (if meals st = [] then st else save_data write_ok (st\<lparr>meals := tl (meals st)\<rparr>))"

section \<open>Shared building blocks\<close>

text \<open>
  A dictionary whose iteration order matters is an association list in insertion order.
  \<open>dict_update k dflt f\<close> is \<open>d[k] = f(d[k])\<close> on a dictionary that creates the entry
  \<open>dflt\<close> for an absent key first: an existing key keeps its position, a new key goes to
  the end.
\<close>

fun dict_update :: "'k \<Rightarrow> 'v \<Rightarrow> ('v \<Rightarrow> 'v) \<Rightarrow> ('k \<times> 'v) list \<Rightarrow> ('k \<times> 'v) list" where
  "dict_update k dflt f [] = [(k, f dflt)]"
| "dict_update k dflt f ((k', v) # kvs) =
     (if k' = k then (k', f v) # kvs else (k', v) # dict_update k dflt f kvs)"

text \<open>A list comprehension whose body can raise: the first exception ends it.\<close>

fun collect :: "('a \<Rightarrow> py_error + 'b) \<Rightarrow> 'a list \<Rightarrow> py_error + 'b list" where
  "collect f [] = Inr []"
| "collect f (x # xs) =
     (case f x of
        Inl e \<Rightarrow> Inl e
      | Inr y \<Rightarrow> (case collect f xs of Inl e \<Rightarrow> Inl e | Inr ys \<Rightarrow> Inr (y # ys)))"

text \<open>\<open>xs[:limit]\<close>: a negative limit counts from the end.\<close>

definition py_slice_to :: "int \<Rightarrow> 'a list \<Rightarrow> 'a list" where
  "py_slice_to limit xs =
     (if 0 \<le> limit then take (nat limit) xs else take (nat (int (length xs) + limit)) xs)"

text \<open>
  The recency filter that the report, the analyzer and the tracker all write inline:
  \<open>[meal for meal in meals if datetime.fromisoformat(...) > cutoff]\<close>.
\<close>

fun recent_meals :: "datetime \<Rightarrow> meal list \<Rightarrow> py_error + meal list" where
  "recent_meals cutoff [] = Inr []"
| "recent_meals cutoff (m # ms) =
     (case consumedAt m of
        None \<Rightarrow> Inl ValueError
      | Some consumed_at \<Rightarrow>
          (case dt_gt consumed_at cutoff of
             Inl e \<Rightarrow> Inl e
           | Inr keep \<Rightarrow>
               (case recent_meals cutoff ms of
                  Inl e \<Rightarrow> Inl e
                | Inr rest \<Rightarrow> Inr (if keep then m # rest else rest))))"

text \<open>The result dictionaries with the keys \<open>calories\<close>, \<open>protein\<close>, \<open>carbs\<close>, \<open>fat\<close>, ...\<close>

record macro_totals =
  calories :: number
  protein :: number
  carbs :: number
  fat :: number

record nutrition_totals = macro_totals +
  fiber :: number

record export_totals = nutrition_totals +
  sugar :: number

section \<open>Weekly report (\<open>nutrition_report.py\<close>)\<close>

text \<open>The filter at the head of \<open>generate_weekly_report\<close>, with \<open>now\<close> the clock reading.\<close>

definition report_recent_meals :: "datetime \<Rightarrow> meal list \<Rightarrow> py_error + meal list" where
  "report_recent_meals now ms =
     (case minus_days now 7 of Inl e \<Rightarrow> Inl e | Inr cutoff \<Rightarrow> recent_meals cutoff ms)"

subsection \<open>\<open>_group_by_day\<close>\<close>

record daily =
  d_count :: int
  d_calories :: number
  d_protein :: number
  d_carbs :: number
  d_fat :: number

definition new_daily :: daily where
  "new_daily =
     \<lparr>d_count = 0, d_calories = PInt 0, d_protein = PInt 0, d_carbs = PInt 0,
      d_fat = PInt 0\<rparr>"

definition add_to_day :: "meal \<Rightarrow> daily \<Rightarrow> daily" where
  "add_to_day m d =
     d\<lparr>d_count := d_count d + 1,
       d_calories := py_add (d_calories d) (meal_calories m),
       d_protein := py_add (d_protein d) (meal_protein m),
       d_carbs := py_add (d_carbs d) (meal_carbs m),
       d_fat := py_add (d_fat d) (meal_fat m)\<rparr>"

text \<open>
  The key \<open>consumed_at.strftime('%Y-%m-%d')\<close> names the calendar day of the timestamp in its
  own offset; the day number stands for that text.
\<close>

fun group_by_day_loop :: "meal list \<Rightarrow> (int \<times> daily) list \<Rightarrow> py_error + (int \<times> daily) list" where
  "group_by_day_loop [] daily_data = Inr daily_data"
| "group_by_day_loop (m # ms) daily_data =
     (case consumedAt m of
        None \<Rightarrow> Inl ValueError
      | Some consumed_at \<Rightarrow>
          group_by_day_loop ms
            (dict_update (ordinal consumed_at) new_daily (add_to_day m) daily_data))"

definition group_by_day :: "meal list \<Rightarrow> py_error + (int \<times> daily) list" where
  "group_by_day ms = group_by_day_loop ms []"

subsection \<open>\<open>_calculate_totals\<close>\<close>

definition add_to_totals :: "nutrition_totals \<Rightarrow> meal \<Rightarrow> nutrition_totals" where
  "add_to_totals t m =
     t\<lparr>calories := py_add (calories t) (meal_calories m),
       protein := py_add (protein t) (meal_protein m),
       carbs := py_add (carbs t) (meal_carbs m),
       fat := py_add (fat t) (meal_fat m),
       fiber := py_add (fiber t) (meal_fiber m)\<rparr>"

definition calculate_totals :: "meal list \<Rightarrow> nutrition_totals" where
  "calculate_totals ms =
     foldl add_to_totals
       \<lparr>calories = PInt 0, protein = PInt 0, carbs = PInt 0, fat = PInt 0, fiber = PInt 0\<rparr>
       ms"

subsection \<open>\<open>_get_top_foods\<close>\<close>

record report_food_stats =
  r_count :: int
  r_total_calories :: number

record report_top_food =
  r_food :: string
  r_top_count :: int
  r_avg_calories :: number

text \<open>The label and the calories of a composition item, with the accessors' defaults.\<close>

definition item_label :: "food_item \<Rightarrow> string" where
  "item_label item = get_or (label item) ''unknown''"

definition item_calories :: "food_item \<Rightarrow> number" where
  "item_calories item =
     get_or (calories_kcal (get_or (nutrition item) empty_nutrition)) (PInt 0)"

definition report_count_item ::
  "(string \<times> report_food_stats) list \<Rightarrow> food_item \<Rightarrow> (string \<times> report_food_stats) list" where
  "report_count_item food_count item =
     dict_update (item_label item) \<lparr>r_count = 0, r_total_calories = PInt 0\<rparr>
       (\<lambda>d. d\<lparr>r_count := r_count d + 1,
               r_total_calories := py_add (r_total_calories d) (item_calories item)\<rparr>)
       food_count"

definition report_food_count :: "meal list \<Rightarrow> (string \<times> report_food_stats) list" where
  "report_food_count ms =
     foldl (\<lambda>food_count m. foldl report_count_item food_count (meal_composition m)) [] ms"

text \<open>
  \<open>sorted(..., key=lambda x: x[1]['count'], reverse=True)\<close> is stable also when reversed
  (entries of equal count keep their dictionary order), so it is the stable sort on the
  negated count. Then the slice \<open>[:limit]\<close>, and the average guarded by \<open>count > 0\<close>.
\<close>

definition report_get_top_foods :: "meal list \<Rightarrow> int \<Rightarrow> report_top_food list" where
  "report_get_top_foods ms limit =
     map (\<lambda>(food, data).
            \<lparr>r_food = food, r_top_count = r_count data,
             r_avg_calories =
               (if 0 < r_count data
                then true_div (r_total_calories data) (PInt (r_count data))
                else PInt 0)\<rparr>)
       (py_slice_to limit (sort_key (\<lambda>x. - r_count (snd x)) (report_food_count ms)))"

subsection \<open>The text gauge\<close>

text \<open>
  A Python string is a sequence of code points. The two glyphs of the gauge are U+2588
  (full block) and U+2591 (light shade). Multiplying a string by a negative number gives the
  empty string, which \<open>nat\<close> on a negative integer reproduces. The divisor of
  \<open>percentage / 100\<close> is the literal 100.
\<close>

type_synonym ustring = "nat list"

definition FULL_BLOCK :: nat where
  "FULL_BLOCK = 9608"

definition LIGHT_SHADE :: nat where
  "LIGHT_SHADE = 9617"

text \<open>The local variable \<open>filled\<close> of \<open>_create_bar\<close>, and the string it returns.\<close>

definition filled_glyphs :: "number \<Rightarrow> int \<Rightarrow> int" where
  "filled_glyphs percentage width =
     py_int (py_mul (true_div percentage (PInt 100)) (PInt width))"

definition create_bar :: "number \<Rightarrow> int \<Rightarrow> ustring" where
  "create_bar percentage width =
     (let filled = filled_glyphs percentage width
      in replicate (nat filled) FULL_BLOCK @ replicate (nat (width - filled)) LIGHT_SHADE)"

text \<open>
  The gauge as the specification words it, with \<open>round\<close> in place of the truncation; it is
  only compared with \<open>create_bar\<close>.
\<close>

definition renderBar_spec :: "number \<Rightarrow> int \<Rightarrow> ustring" where
  "renderBar_spec percentage width =
     (let filled = py_round (py_mul (true_div percentage (PInt 100)) (PInt width))
      in replicate (nat filled) FULL_BLOCK @ replicate (nat (width - filled)) LIGHT_SHADE)"

subsection \<open>\<open>_generate_recommendations\<close>\<close>

definition MSG_LOW_CALORIES :: string where
  "MSG_LOW_CALORIES =
     ''Your average calorie intake is quite low. Consider increasing portion sizes.''"

definition MSG_HIGH_CALORIES :: string where
  "MSG_HIGH_CALORIES =
     ''Your calorie intake is high. Consider reducing portion sizes if weight management is a goal.''"

definition MSG_LOW_PROTEIN :: string where
  "MSG_LOW_PROTEIN =
     ''Consider increasing protein intake. Aim for lean meats, fish, eggs, or plant-based sources.''"

definition MSG_HIGH_PROTEIN :: string where
  "MSG_HIGH_PROTEIN =
     ''Protein intake is very high. Ensure you're balancing with other nutrients.''"

definition MSG_MEAL_FREQUENCY :: string where
  "MSG_MEAL_FREQUENCY =
     ''Try to have at least 3 balanced meals per day for better nutrition.''"

definition MSG_PROTEIN_SHARE :: string where
  "MSG_PROTEIN_SHARE = ''Consider increasing protein-rich foods in your diet.''"

definition MSG_CARB_SHARE :: string where
  "MSG_CARB_SHARE =
     ''Your carbohydrate intake is high. Consider balancing with more protein and healthy fats.''"

definition MSG_BALANCED :: string where
  "MSG_BALANCED = ''Your nutrition looks balanced! Keep up the good work.''"

text \<open>
  The divisors of the averages are the literal 7; the shares are computed under the guard
  \<open>total_macros > 0\<close>.
\<close>

definition generate_recommendations :: "nutrition_totals \<Rightarrow> meal list \<Rightarrow> string list" where
  "generate_recommendations weekly ms =
     (let recommendations = [];
          avg_calories = true_div (calories weekly) (PInt 7);
          avg_protein = true_div (protein weekly) (PInt 7);
          recommendations =
            (if py_lt avg_calories (PInt 1500) then recommendations @ [MSG_LOW_CALORIES]
             else if py_lt (PInt 2500) avg_calories then recommendations @ [MSG_HIGH_CALORIES]
             else recommendations);
          recommendations =
            (if py_lt avg_protein (PInt 50) then recommendations @ [MSG_LOW_PROTEIN]
             else if py_lt (PInt 150) avg_protein then recommendations @ [MSG_HIGH_PROTEIN]
             else recommendations);
          avg_meals_per_day = true_div (PInt (int (length ms))) (PInt 7);
          recommendations =
            (if py_lt avg_meals_per_day (PInt 2) then recommendations @ [MSG_MEAL_FREQUENCY]
             else recommendations);
          total_macros = py_add (py_add (protein weekly) (carbs weekly)) (fat weekly);
          recommendations =
            (if py_lt (PInt 0) total_macros then
               (let protein_pct = py_mul (true_div (protein weekly) total_macros) (PInt 100);
                    carbs_pct = py_mul (true_div (carbs weekly) total_macros) (PInt 100);
                    recommendations =
                      (if py_lt protein_pct (PInt 15) then recommendations @ [MSG_PROTEIN_SHARE]
                       else recommendations)
                in if py_lt (PInt 60) carbs_pct then recommendations @ [MSG_CARB_SHARE]
                   else recommendations)
             else recommendations)
      in if recommendations = [] then recommendations @ [MSG_BALANCED] else recommendations)"

text \<open>
  The advisories as the specification words them: a table of threshold conditions in
  order, each with its advisory, and the affirmation when none holds. The averages and the
  shares are the numbers that the interpreter's arithmetic gives; a share of the macro grams
  exists only when there are macro grams. The table is only compared with
  \<open>generate_recommendations\<close>.
\<close>

definition macro_share :: "number \<Rightarrow> number \<Rightarrow> number" where
  "macro_share part grams = py_mul (true_div part grams) (PInt 100)"

definition advisory_rules :: "nutrition_totals \<Rightarrow> meal list \<Rightarrow> (bool \<times> string) list" where
  "advisory_rules weekly ms =
     (let avg_calories = true_div (calories weekly) (PInt 7);
          avg_protein = true_div (protein weekly) (PInt 7);
          avg_meals = true_div (PInt (int (length ms))) (PInt 7);
          grams = py_add (py_add (protein weekly) (carbs weekly)) (fat weekly)
      in [(py_lt avg_calories (PInt 1500), MSG_LOW_CALORIES),
          (py_lt (PInt 2500) avg_calories, MSG_HIGH_CALORIES),
          (py_lt avg_protein (PInt 50), MSG_LOW_PROTEIN),
          (py_lt (PInt 150) avg_protein, MSG_HIGH_PROTEIN),
          (py_lt avg_meals (PInt 2), MSG_MEAL_FREQUENCY),
          (py_lt (PInt 0) grams \<and> py_lt (macro_share (protein weekly) grams) (PInt 15),
           MSG_PROTEIN_SHARE),
          (py_lt (PInt 0) grams \<and> py_lt (PInt 60) (macro_share (carbs weekly) grams),
           MSG_CARB_SHARE)])"

definition recommendations_spec :: "nutrition_totals \<Rightarrow> meal list \<Rightarrow> string list" where
  "recommendations_spec weekly ms =
     (let fired = map snd (filter fst (advisory_rules weekly ms))
      in if fired = [] then [MSG_BALANCED] else fired)"

section \<open>Analyzer (\<open>nutrition_analyzer.py\<close>)\<close>

subsection \<open>\<open>analyze_macros\<close>\<close>

record macro_analysis =
  total_protein :: number
  total_carbs :: number
  total_fat :: number
  total_calories :: number
  protein_percentage :: number
  carbs_percentage :: number
  fat_percentage :: number

text \<open>
  The accumulation loop: the tuple is
  \<open>(total_protein, total_carbs, total_fat, total_calories)\<close>.
\<close>

definition analyze_macros_step ::
  "number \<times> number \<times> number \<times> number \<Rightarrow> meal \<Rightarrow> number \<times> number \<times> number \<times> number" where
  "analyze_macros_step acc m =
     (case acc of (tp, tc, tf, tcal) \<Rightarrow>
        (py_add tp (meal_protein m), py_add tc (meal_carbs m), py_add tf (meal_fat m),
         py_add tcal (meal_calories m)))"

definition analyze_macros_sums :: "meal list \<Rightarrow> number \<times> number \<times> number \<times> number" where
  "analyze_macros_sums ms = foldl analyze_macros_step (PInt 0, PInt 0, PInt 0, PInt 0) ms"

text \<open>The local variables \<open>(protein_pct, carbs_pct, fat_pct)\<close> after the branch.\<close>

definition macro_percentages ::
  "number \<Rightarrow> number \<Rightarrow> number \<Rightarrow> py_error + number \<times> number \<times> number" where
  "macro_percentages tp tc tf =
     (let total_grams = py_add (py_add tp tc) tf
      in if py_lt (PInt 0) total_grams then
           (case py_div tp total_grams of
              Inl e \<Rightarrow> Inl e
            | Inr p \<Rightarrow>
                (case py_div tc total_grams of
                   Inl e \<Rightarrow> Inl e
                 | Inr c \<Rightarrow>
                     (case py_div tf total_grams of
                        Inl e \<Rightarrow> Inl e
                      | Inr f \<Rightarrow>
                          Inr (py_mul p (PInt 100), py_mul c (PInt 100), py_mul f (PInt 100)))))
         else Inr (PInt 0, PInt 0, PInt 0))"

definition analyze_macros :: "meal list \<Rightarrow> py_error + macro_analysis" where
  "analyze_macros ms =
     (case analyze_macros_sums ms of (tp, tc, tf, tcal) \<Rightarrow>
        (case macro_percentages tp tc tf of
           Inl e \<Rightarrow> Inl e
         | Inr (protein_pct, carbs_pct, fat_pct) \<Rightarrow>
             Inr \<lparr>total_protein = py_round2 tp,
                  total_carbs = py_round2 tc,
                  total_fat = py_round2 tf,
                  total_calories = py_round2 tcal,
                  protein_percentage = py_round2 protein_pct,
                  carbs_percentage = py_round2 carbs_pct,
                  fat_percentage = py_round2 fat_pct\<rparr>))"

subsection \<open>\<open>get_daily_averages\<close>\<close>

definition get_daily_averages :: "datetime \<Rightarrow> int \<Rightarrow> meal list \<Rightarrow> py_error + macro_totals" where
  "get_daily_averages now days ms =
     (case minus_days now days of
        Inl e \<Rightarrow> Inl e
      | Inr cutoff_date \<Rightarrow>
          (case recent_meals cutoff_date ms of
             Inl e \<Rightarrow> Inl e
           | Inr recent \<Rightarrow>
               if recent = []
               then Inr \<lparr>calories = PInt 0, protein = PInt 0, carbs = PInt 0, fat = PInt 0\<rparr>
               else
                 (case analyze_macros_sums recent of (tp, tc, tf, tcal) \<Rightarrow>
                    (case py_div tcal (PInt days) of
                       Inl e \<Rightarrow> Inl e
                     | Inr c \<Rightarrow>
                     (case py_div tp (PInt days) of
                       Inl e \<Rightarrow> Inl e
                     | Inr p \<Rightarrow>
                     (case py_div tc (PInt days) of
                       Inl e \<Rightarrow> Inl e
                     | Inr cb \<Rightarrow>
                     (case py_div tf (PInt days) of
                       Inl e \<Rightarrow> Inl e
                     | Inr f \<Rightarrow>
                         Inr \<lparr>calories = py_round2 c, protein = py_round2 p,
                              carbs = py_round2 cb, fat = py_round2 f\<rparr>)))))))"

subsection \<open>\<open>get_top_foods\<close>\<close>

text \<open>
  An entry of \<open>food_count\<close> has the keys \<open>count\<close>, \<open>total_calories\<close>,
  \<open>total_protein\<close>; a returned entry has \<open>food\<close>, \<open>count\<close>, \<open>avg_calories\<close>,
  \<open>avg_protein\<close>. A key whose name is already taken carries a prefix.
\<close>

record food_stats =
  count :: int
  food_total_calories :: number
  food_total_protein :: number

record top_food =
  food :: string
  top_count :: int
  avg_calories :: number
  avg_protein :: number

definition item_protein :: "food_item \<Rightarrow> number" where
  "item_protein item =
     get_or (protein_g (get_or (macros (get_or (nutrition item) empty_nutrition)) empty_macros))
       (PInt 0)"

definition count_item ::
  "(string \<times> food_stats) list \<Rightarrow> food_item \<Rightarrow> (string \<times> food_stats) list" where
  "count_item food_count item =
     dict_update (item_label item)
       \<lparr>count = 0, food_total_calories = PInt 0, food_total_protein = PInt 0\<rparr>
       (\<lambda>d. d\<lparr>count := count d + 1,
               food_total_calories := py_add (food_total_calories d) (item_calories item),
               food_total_protein := py_add (food_total_protein d) (item_protein item)\<rparr>)
       food_count"

definition food_count_of :: "meal list \<Rightarrow> (string \<times> food_stats) list" where
  "food_count_of ms =
     foldl (\<lambda>food_count m. foldl count_item food_count (meal_composition m)) [] ms"

text \<open>
  \<open>sorted(food_count.items(), key=lambda x: x[1]['count'], reverse=True)\<close>: the stable sort
  on the negated count, as in the report.
\<close>

definition sorted_foods :: "meal list \<Rightarrow> (string \<times> food_stats) list" where
  "sorted_foods ms = sort_key (\<lambda>x. - count (snd x)) (food_count_of ms)"

definition top_food_entry :: "string \<times> food_stats \<Rightarrow> py_error + top_food" where
  "top_food_entry x =
     (case x of (fd, data) \<Rightarrow>
        (case py_div (food_total_calories data) (PInt (count data)) of
           Inl e \<Rightarrow> Inl e
         | Inr ac \<Rightarrow>
             (case py_div (food_total_protein data) (PInt (count data)) of
                Inl e \<Rightarrow> Inl e
              | Inr ap \<Rightarrow>
                  Inr \<lparr>food = fd, top_count = count data,
                       avg_calories = py_round2 ac, avg_protein = py_round2 ap\<rparr>)))"

definition get_top_foods :: "meal list \<Rightarrow> int \<Rightarrow> py_error + top_food list" where
  "get_top_foods ms limit = collect top_food_entry (py_slice_to limit (sorted_foods ms))"

section \<open>Exporter (\<open>data_export.py\<close>)\<close>

definition exporter_add_to_totals :: "export_totals \<Rightarrow> meal \<Rightarrow> export_totals" where
  "exporter_add_to_totals t m =
     t\<lparr>calories := py_add (calories t) (meal_calories m),
       protein := py_add (protein t) (meal_protein m),
       carbs := py_add (carbs t) (meal_carbs m),
       fat := py_add (fat t) (meal_fat m),
       fiber := py_add (fiber t) (meal_fiber m),
       sugar := py_add (sugar t) (meal_sugar m)\<rparr>"

text \<open>The dictionary \<open>totals\<close> of \<open>_calculate_totals\<close> when its loop ends.\<close>

definition exporter_sum_totals :: "meal list \<Rightarrow> export_totals" where
  "exporter_sum_totals ms =
     foldl exporter_add_to_totals
       \<lparr>calories = PInt 0, protein = PInt 0, carbs = PInt 0, fat = PInt 0, fiber = PInt 0,
        sugar = PInt 0\<rparr> ms"

text \<open>\<open>{k: g(v) for k, v in totals.items()}\<close>\<close>

definition map_totals :: "(number \<Rightarrow> number) \<Rightarrow> export_totals \<Rightarrow> export_totals" where
  "map_totals g t =
     \<lparr>calories = g (calories t), protein = g (protein t), carbs = g (carbs t),
      fat = g (fat t), fiber = g (fiber t), sugar = g (sugar t)\<rparr>"

definition exporter_calculate_totals :: "meal list \<Rightarrow> export_totals" where
  "exporter_calculate_totals ms = map_totals py_round2 (exporter_sum_totals ms)"

text \<open>
  \<open>_calculate_daily_averages\<close>. The set \<open>dates\<close> holds \<open>consumed_at.date()\<close> of every
  meal; its size is the number of different day numbers. The empty dictionary \<open>{}\<close> is
  \<open>None\<close>. The divisor is checked to be non-zero before the division.
\<close>

definition meal_date :: "meal \<Rightarrow> py_error + int" where
  "meal_date m =
     (case consumedAt m of None \<Rightarrow> Inl ValueError | Some consumed_at \<Rightarrow> Inr (ordinal consumed_at))"

definition calculate_daily_averages :: "meal list \<Rightarrow> py_error + export_totals option" where
  "calculate_daily_averages ms =
     (if ms = [] then Inr None
      else
        (case collect meal_date ms of
           Inl e \<Rightarrow> Inl e
         | Inr dates \<Rightarrow>
             (let total_days = length (remdups dates)
              in if total_days = 0 then Inr None
                 else Inr (Some (map_totals
                                   (\<lambda>v. py_round2 (true_div v (PInt (int total_days))))
                                   (exporter_calculate_totals ms))))))"

text \<open>
  The daily averages as the specification words them: the sums as accumulated, divided by
  the number of distinct dates among the timestamps, rounded once for display. They are
  only compared with \<open>calculate_daily_averages\<close>.
\<close>

definition meal_days :: "meal list \<Rightarrow> int list" where
  "meal_days ms = List.map_filter (\<lambda>m. map_option ordinal (consumedAt m)) ms"

definition daily_averages_spec :: "meal list \<Rightarrow> export_totals" where
  "daily_averages_spec ms =
     map_totals (\<lambda>v. py_round2 (true_div v (PInt (int (card (set (meal_days ms)))))))
       (exporter_sum_totals ms)"

section \<open>Records with the defaults written out\<close>

text \<open>
  \<open>fill_defaults\<close> writes every absent dictionary, numeric leaf and composition of a
  record out as the default that the accessors substitute. It is used to state that absent
  fields behave as explicit zeros.
\<close>

definition fill_macros :: "macros \<Rightarrow> macros" where
  "fill_macros mc =
     \<lparr>protein_g = Some (get_or (protein_g mc) (PInt 0)),
      carbs_g = Some (get_or (carbs_g mc) (PInt 0)),
      fat_g = Some (get_or (fat_g mc) (PInt 0)),
      fiber_g = Some (get_or (fiber_g mc) (PInt 0)),
      sugar_g = Some (get_or (sugar_g mc) (PInt 0))\<rparr>"

definition fill_nutrition :: "nutrition \<Rightarrow> nutrition" where
  "fill_nutrition n =
     n\<lparr>calories_kcal := Some (get_or (calories_kcal n) (PInt 0)),
       macros := Some (fill_macros (get_or (macros n) empty_macros))\<rparr>"

definition fill_totals :: "totals \<Rightarrow> totals" where
  "fill_totals t =
     t\<lparr>calories_kcal := Some (get_or (calories_kcal t) (PInt 0)),
       macros := Some (fill_macros (get_or (macros t) empty_macros))\<rparr>"

definition fill_item :: "food_item \<Rightarrow> food_item" where
  "fill_item item =
     item\<lparr>nutrition := Some (fill_nutrition (get_or (nutrition item) empty_nutrition))\<rparr>"

definition fill_analysis :: "analysis \<Rightarrow> analysis" where
  "fill_analysis a =
     a\<lparr>totals := Some (fill_totals (get_or (totals a) empty_totals)),
       composition := Some (map fill_item (get_or (composition a) []))\<rparr>"

definition fill_defaults :: "meal \<Rightarrow> meal" where
  "fill_defaults m =
     m\<lparr>analysisData := Some (fill_analysis (get_or (analysisData m) empty_analysis))\<rparr>"

section \<open>Sample records\<close>

text \<open>
  A meal with its totals given, and a meal that carries nothing but a timestamp. The sample
  list has the two meals of the specification's example (2024-01-01 and 2024-01-02, 08:00
  UTC) and a bare record on the first day.
\<close>

definition sample_meal :: "datetime \<Rightarrow> number \<Rightarrow> number \<Rightarrow> number \<Rightarrow> number \<Rightarrow> meal" where
  "sample_meal t kcal p c f =
     \<lparr>meal_id = None, mealType = Some ''lunch'', name = None, meal_notes = None,
      consumedAt = Some t, createdAt = None,
      analysisData = Some
        \<lparr>totals = Some
           \<lparr>calories_kcal = Some kcal,
            macros = Some \<lparr>protein_g = Some p, carbs_g = Some c, fat_g = Some f,
                           fiber_g = None, sugar_g = None\<rparr>,
            micros = None, allergens = None, serving_total_g = None\<rparr>,
         composition = None, image_meta = None\<rparr>\<rparr>"

definition bare_meal :: "datetime option \<Rightarrow> meal" where
  "bare_meal t =
     \<lparr>meal_id = None, mealType = None, name = None, meal_notes = None,
      consumedAt = t, createdAt = None, analysisData = None\<rparr>"

definition two_day_meals :: "meal list" where
  "two_day_meals =
     [sample_meal (utc_datetime 2024 1 1 8 0 0) (PInt 500) (PInt 30) (PInt 50) (PInt 15),
      sample_meal (utc_datetime 2024 1 2 8 0 0) (PInt 650) (PInt 35) (PInt 60) (PInt 25),
      bare_meal (Some (utc_datetime 2024 1 1 19 30 0))]"

text \<open>
  Two meals on two days whose calorie sum 500.254 rounds to 500.25, half of which is the
  tie 250.125.
\<close>

definition rounding_meals :: "meal list" where
  "rounding_meals =
     [sample_meal (utc_datetime 2024 1 1 8 0 0) (json_float (500254 / 1000))
        (PInt 0) (PInt 0) (PInt 0),
      bare_meal (Some (utc_datetime 2024 1 2 8 0 0))]"

text \<open>Two meals on two days with 0.03 kcal in all.\<close>

definition cent_meals :: "meal list" where
  "cent_meals =
     [sample_meal (utc_datetime 2024 1 1 8 0 0) (json_float (3 / 100))
        (PInt 0) (PInt 0) (PInt 0),
      bare_meal (Some (utc_datetime 2024 1 2 8 0 0))]"

text \<open>
  Three meals with 0.1, 0.2 and 0.4 kcal; the first and the third are on the same day.
\<close>

definition fraction_meals :: "meal list" where
  "fraction_meals =
     [sample_meal (utc_datetime 2024 1 1 8 0 0) (json_float (1 / 10)) (PInt 0) (PInt 0) (PInt 0),
      sample_meal (utc_datetime 2024 1 2 8 0 0) (json_float (2 / 10)) (PInt 0) (PInt 0) (PInt 0),
      sample_meal (utc_datetime 2024 1 1 19 0 0) (json_float (4 / 10)) (PInt 0) (PInt 0) (PInt 0)]"

text \<open>A meal whose protein is negative: \<open>meal_tracker.py add snack 0 -5 2 1\<close>.\<close>

definition negative_meals :: "meal list" where
  "negative_meals =
     [sample_meal (naive_datetime 2024 1 1 8 0 0) (json_float 0) (json_float (- 5))
        (json_float 2) (json_float 1)]"

text \<open>Meals with a composition; one item has neither label nor nutrition.\<close>

definition sample_item :: "string \<Rightarrow> number \<Rightarrow> number \<Rightarrow> food_item" where
  "sample_item l kcal p =
     \<lparr>label = Some l, confidence = None, serving_est_g = None,
      nutrition = Some
        \<lparr>calories_kcal = Some kcal,
         macros = Some \<lparr>protein_g = Some p, carbs_g = None, fat_g = None,
                        fiber_g = None, sugar_g = None\<rparr>,
         micros = None, allergens = None\<rparr>\<rparr>"

definition bare_item :: food_item where
  "bare_item = \<lparr>label = None, confidence = None, serving_est_g = None, nutrition = None\<rparr>"

definition meal_with_items :: "food_item list \<Rightarrow> meal" where
  "meal_with_items items =
     \<lparr>meal_id = None, mealType = None, name = None, meal_notes = None,
      consumedAt = None, createdAt = None,
      analysisData = Some \<lparr>totals = None, composition = Some items, image_meta = None\<rparr>\<rparr>"

definition food_meals :: "meal list" where
  "food_meals =
     [meal_with_items [sample_item ''egg'' (PInt 70) (PInt 6),
                       sample_item ''rice'' (PInt 200) (PInt 4)],
      meal_with_items [sample_item ''rice'' (PInt 100) (PInt 2),
                       sample_item ''tofu'' (PInt 80) (PInt 8), bare_item],
      bare_meal None,
      meal_with_items [sample_item ''rice'' (PInt 100) (PInt 2),
                       sample_item ''egg'' (PInt 70) (PInt 6)]]"

text \<open>One meal with two rice items of 1.1 and 1.13 kcal.\<close>

definition rice_meals :: "meal list" where
  "rice_meals =
     [meal_with_items [sample_item ''rice'' (json_float (11 / 10)) (PInt 0),
                       sample_item ''rice'' (json_float (113 / 100)) (PInt 0)]]"

section \<open>Notions used in the statements\<close>

text \<open>
  The calendar day of a record (\<open>None\<close> when its timestamp does not parse), and the
  records of a list that fall on a day, in list order. \<open>meal_ordinal\<close> is the day number
  of a record whose timestamp parses. Every composition item of every record, in reading
  order, and those bearing a label; the position at which a key is first met; and the
  label, count and calorie sum that both top-foods dictionaries hold.
\<close>

definition meal_day :: "meal \<Rightarrow> int option" where
  "meal_day m = map_option ordinal (consumedAt m)"

definition meal_ordinal :: "meal \<Rightarrow> int" where
  "meal_ordinal m = (case consumedAt m of None \<Rightarrow> 0 | Some t \<Rightarrow> ordinal t)"

definition on_day :: "int \<Rightarrow> meal list \<Rightarrow> meal list" where
  "on_day d ms = filter (\<lambda>m. meal_day m = Some d) ms"

definition labelled :: "string \<Rightarrow> food_item list \<Rightarrow> food_item list" where
  "labelled l items = filter (\<lambda>i. item_label i = l) items"

definition all_items :: "meal list \<Rightarrow> food_item list" where
  "all_items ms = concat (map meal_composition ms)"

definition first_index :: "'a \<Rightarrow> 'a list \<Rightarrow> nat" where
  "first_index x xs = length (takeWhile (\<lambda>y. y \<noteq> x) xs)"

definition report_view :: "string \<times> report_food_stats \<Rightarrow> string \<times> int \<times> number" where
  "report_view = (\<lambda>x. (fst x, r_count (snd x), r_total_calories (snd x)))"

definition analyzer_view :: "string \<times> food_stats \<Rightarrow> string \<times> int \<times> number" where
  "analyzer_view = (\<lambda>x. (fst x, count (snd x), food_total_calories (snd x)))"

section \<open>Properties\<close>

subsection \<open>Rounding to a double\<close>

lemma floor_rat_numeral [simp]:
  "\<lfloor>numeral a / numeral b :: rat\<rfloor> = numeral a div numeral b"
  by (metis floor_divide_of_int_eq of_int_numeral)

lemma ceiling_rat_numeral [simp]:
  "\<lceil>numeral a / numeral b :: rat\<rceil> = - (- numeral a div numeral b)"
  using ceiling_divide_eq_div [of "numeral a" "numeral b", where ?'a = rat] by simp

lemma bitlen_pos: "0 < a \<Longrightarrow> bitlen a = bitlen (a div 2) + 1"
  by (subst compute_bitlen) simp

lemma bitlen_nonpos: "a \<le> 0 \<Longrightarrow> bitlen a = 0"
  by (subst compute_bitlen) simp

lemmas fl_eval = fl_def fl_pos_def grid_round_def quantum_def binade_def pow2_def round_half_even_def Let_def
  bitlen_pos bitlen_nonpos

lemma pow2_powi: "pow2 e = 2 powi e"
  by (simp add: pow2_def power_int_def power_one_over inverse_eq_divide)

lemma pow2_pos [simp]: "0 < pow2 e"
  by (simp add: pow2_def)

lemma pow2_neq0 [simp]: "pow2 e \<noteq> 0"
  by (simp add: pow2_def)

lemma pow2_mono: "a \<le> b \<Longrightarrow> pow2 a \<le> pow2 b"
  by (simp add: pow2_powi power_int_increasing)

lemma pow2_strict_mono: "a < b \<Longrightarrow> pow2 a < pow2 b"
  by (simp add: pow2_powi power_int_strict_increasing)

lemma pow2_quot: "q \<le> k \<Longrightarrow> pow2 k / pow2 q = of_int (2 ^ nat (k - q))"
proof -
  assume "q \<le> k"
  have "pow2 k / pow2 q = (2 :: rat) powi (k - q)"
    by (simp add: pow2_powi power_int_diff)
  also have "\<dots> = 2 ^ nat (k - q)"
    using \<open>q \<le> k\<close> by (simp add: power_int_def)
  finally show ?thesis by simp
qed

lemma round_half_even_of_int [simp]: "round_half_even (of_int n) = n"
  by (simp add: round_half_even_def Let_def)

lemma round_half_even_zero [simp]: "round_half_even 0 = 0"
  by (simp add: round_half_even_def Let_def)

lemma round_half_even_range:
  "round_half_even x = \<lfloor>x\<rfloor> \<or> round_half_even x = \<lfloor>x\<rfloor> + 1"
  by (simp add: round_half_even_def Let_def)

lemma round_half_even_mono:
  assumes "x \<le> y"
  shows "round_half_even x \<le> round_half_even y"
proof (cases "\<lfloor>x\<rfloor> < \<lfloor>y\<rfloor>")
  case True
  with round_half_even_range [of x] round_half_even_range [of y] show ?thesis
    by linarith
next
  case False
  with assms have eq: "\<lfloor>x\<rfloor> = \<lfloor>y\<rfloor>"
    by (simp add: floor_mono order_antisym not_less)
  with assms show ?thesis
    by (auto simp: round_half_even_def Let_def)
qed

lemma grid_round_mono: "x \<le> y \<Longrightarrow> grid_round q x \<le> grid_round q y"
  unfolding grid_round_def
  by (intro mult_right_mono) (simp_all add: round_half_even_mono divide_right_mono less_imp_le)

lemma grid_round_pow2: "q \<le> k \<Longrightarrow> grid_round q (pow2 k) = pow2 k"
proof -
  assume qk: "q \<le> k"
  have "of_int (round_half_even (pow2 k / pow2 q)) * pow2 q = (pow2 k / pow2 q) * pow2 q"
    by (simp only: pow2_quot [OF qk] round_half_even_of_int)
  then show ?thesis
    by (simp add: grid_round_def)
qed

lemma grid_round_of_int: "q \<le> 0 \<Longrightarrow> grid_round q (of_int n) = of_int n"
proof -
  assume q0: "q \<le> 0"
  have "of_int n / pow2 q = (of_int (n * 2 ^ nat (- q)) :: rat)"
    using pow2_quot [OF q0] by (simp add: pow2_def field_simps)
  then have "of_int (round_half_even (of_int n / pow2 q)) * pow2 q = (of_int n / pow2 q) * pow2 q"
    by (simp only: round_half_even_of_int)
  then show ?thesis
    by (simp add: grid_round_def)
qed

lemma grid_round_nonneg: "0 \<le> x \<Longrightarrow> 0 \<le> grid_round q x"
  using grid_round_mono [of 0 x q] by (simp add: grid_round_def)

lemma binade_bounds:
  assumes "0 < x"
  shows "pow2 (binade x) \<le> x" and "x < pow2 (binade x + 1)"
proof -
  show "pow2 (binade x) \<le> x"
  proof (cases "1 \<le> x")
    case True
    then have n: "0 < \<lfloor>x\<rfloor>" by simp
    from bitlen_bounds [OF n] have "2 ^ nat (bitlen \<lfloor>x\<rfloor> - 1) \<le> \<lfloor>x\<rfloor>" ..
    then have "(of_int (2 ^ nat (bitlen \<lfloor>x\<rfloor> - 1)) :: rat) \<le> of_int \<lfloor>x\<rfloor>"
      by (simp only: of_int_le_iff)
    also have "\<dots> \<le> x" by simp
    finally have "(2 :: rat) ^ nat (bitlen \<lfloor>x\<rfloor> - 1) \<le> x" by simp
    moreover from n have "1 \<le> bitlen \<lfloor>x\<rfloor>"
      by (simp add: bitlen_alt_def)
    ultimately show ?thesis using True
      by (simp add: binade_def pow2_def)
  next
    case False
    let ?m = "\<lceil>1 / x\<rceil>"
    let ?k = "bitlen (?m - 1)"
    from False assms have "1 < 1 / x" by (simp add: field_simps)
    then have m: "0 < ?m - 1" by linarith
    from bitlen_bounds [OF m] have "?m - 1 < 2 ^ nat ?k" ..
    then have "?m \<le> 2 ^ nat ?k" by linarith
    then have "(of_int ?m :: rat) \<le> of_int (2 ^ nat ?k)"
      by (simp only: of_int_le_iff)
    then have "(of_int ?m :: rat) \<le> 2 ^ nat ?k"
      by simp
    moreover have "1 / x \<le> of_int ?m"
      by (rule le_of_int_ceiling)
    ultimately have "1 / x \<le> 2 ^ nat ?k"
      by (rule order_trans [rotated])
    with assms have "1 / 2 ^ nat ?k \<le> x"
      by (simp add: field_simps)
    moreover have "0 \<le> ?k" by (rule bitlen_nonneg)
    ultimately show ?thesis using False
      by (auto simp: binade_def pow2_def)
  qed
  show "x < pow2 (binade x + 1)"
  proof (cases "1 \<le> x")
    case True
    then have n: "0 < \<lfloor>x\<rfloor>" by simp
    from bitlen_bounds [OF n] have "\<lfloor>x\<rfloor> < 2 ^ nat (bitlen \<lfloor>x\<rfloor>)" ..
    then have "\<lfloor>x\<rfloor> + 1 \<le> 2 ^ nat (bitlen \<lfloor>x\<rfloor>)" by linarith
    then have "(of_int (\<lfloor>x\<rfloor> + 1) :: rat) \<le> of_int (2 ^ nat (bitlen \<lfloor>x\<rfloor>))"
      by (simp only: of_int_le_iff)
    moreover have "x < of_int (\<lfloor>x\<rfloor> + 1)" by linarith
    ultimately have "x < 2 ^ nat (bitlen \<lfloor>x\<rfloor>)" by simp
    moreover have "0 \<le> bitlen \<lfloor>x\<rfloor>" by (rule bitlen_nonneg)
    ultimately show ?thesis using True
      by (simp add: binade_def pow2_def)
  next
    case False
    let ?m = "\<lceil>1 / x\<rceil>"
    let ?k = "bitlen (?m - 1)"
    from False assms have "1 < 1 / x" by (simp add: field_simps)
    then have m: "0 < ?m - 1" by linarith
    then have k1: "1 \<le> ?k" by (simp add: bitlen_alt_def)
    from bitlen_bounds [OF m] have "2 ^ nat (?k - 1) \<le> ?m - 1" ..
    then have "(of_int (2 ^ nat (?k - 1)) :: rat) \<le> of_int (?m - 1)"
      by (simp only: of_int_le_iff)
    moreover have "of_int (?m - 1) < 1 / x" by linarith
    ultimately have "2 ^ nat (?k - 1) < 1 / x" by simp
    with assms have "x < 1 / 2 ^ nat (?k - 1)"
      by (simp add: field_simps)
    moreover have "pow2 (- ?k + 1) = 1 / 2 ^ nat (?k - 1)"
      using k1 by (auto simp: pow2_def)
    ultimately show ?thesis using False
      by (simp add: binade_def)
  qed
qed

lemma binade_mono:
  assumes "0 < x" and "x \<le> y"
  shows "binade x \<le> binade y"
proof (rule ccontr)
  assume "\<not> binade x \<le> binade y"
  then have "binade y + 1 \<le> binade x" by simp
  then have "pow2 (binade y + 1) \<le> pow2 (binade x)" by (rule pow2_mono)
  also have "\<dots> \<le> x" using assms(1) by (rule binade_bounds)
  also have "\<dots> \<le> y" by fact
  also have "\<dots> < pow2 (binade y + 1)" using assms by (intro binade_bounds) simp
  finally show False by simp
qed

lemma fl_pos_mono:
  assumes "0 < x" and "x \<le> y"
  shows "fl_pos x \<le> fl_pos y"
proof -
  from assms have y: "0 < y" by simp
  have q: "quantum x \<le> quantum y"
    using binade_mono [OF assms] by (simp add: quantum_def)
  show ?thesis
  proof (cases "quantum x = quantum y")
    case True
    with assms show ?thesis
      by (simp add: fl_pos_def grid_round_mono)
  next
    case False
    with q have lt: "quantum x < quantum y" by simp
    then have qy: "quantum y = binade y - 52"
      by (auto simp: quantum_def max_def split: if_splits)
    have "binade x - 52 \<le> quantum x" by (simp add: quantum_def)
    with lt qy have bx: "binade x + 1 \<le> binade y" by simp
    have "x < pow2 (binade x + 1)" using assms(1) by (rule binade_bounds)
    also have "\<dots> \<le> pow2 (binade y)" using bx by (rule pow2_mono)
    finally have "x \<le> pow2 (binade y)" by simp
    then have "grid_round (quantum x) x \<le> grid_round (quantum x) (pow2 (binade y))"
      by (rule grid_round_mono)
    also have "\<dots> = pow2 (binade y)"
      using lt qy by (intro grid_round_pow2) simp
    also have "\<dots> = grid_round (quantum y) (pow2 (binade y))"
      using qy by (intro grid_round_pow2 [symmetric]) simp
    also have "\<dots> \<le> grid_round (quantum y) y"
      using binade_bounds(1) [OF y] by (rule grid_round_mono)
    finally show ?thesis
      by (simp add: fl_pos_def)
  qed
qed

lemma fl_pos_nonneg: "0 \<le> x \<Longrightarrow> 0 \<le> fl_pos x"
  by (simp add: fl_pos_def grid_round_nonneg)

lemma fl_mono:
  assumes "x \<le> y"
  shows "fl x \<le> fl y"
proof -
  consider "0 < x" | "x \<le> 0" "0 \<le> y" | "y < 0"
    by linarith
  then show ?thesis
  proof cases
    case 1
    with assms fl_pos_mono [OF 1 assms] show ?thesis
      by (simp add: fl_def)
  next
    case 2
    have "fl x \<le> 0"
      using 2(1) fl_pos_nonneg [of "- x"] by (simp add: fl_def)
    moreover have "0 \<le> fl y"
      using 2(2) fl_pos_nonneg [of y] by (simp add: fl_def)
    ultimately show ?thesis by simp
  next
    case 3
    with assms have "0 < - y" "- y \<le> - x" by simp_all
    from fl_pos_mono [OF this] 3 assms show ?thesis
      by (simp add: fl_def)
  qed
qed

lemma fl_of_int:
  assumes "\<bar>n\<bar> \<le> 2 ^ 53"
  shows "fl (of_int n) = of_int n"
proof -
  have pos: "fl_pos (of_int k) = of_int k" if "0 < k" "k \<le> 2 ^ 53" for k :: int
  proof (cases "k = 2 ^ 53")
    case True
    have "of_int k = pow2 53"
      by (simp add: True pow2_def)
    moreover have "binade (pow2 53) = 53"
      by (simp add: binade_def pow2_def bitlen_pos bitlen_nonpos)
    ultimately show ?thesis
      using grid_round_pow2 [of 1 53] by (simp add: fl_pos_def quantum_def)
  next
    case False
    with that have lt: "k < 2 ^ 53" by simp
    have "pow2 (binade (of_int k)) \<le> of_int k"
      using that by (intro binade_bounds) simp
    also have "(of_int k :: rat) < of_int (2 ^ 53)"
      using lt by (simp only: of_int_less_iff)
    also have "(of_int (2 ^ 53) :: rat) = pow2 53"
      by (simp add: pow2_def)
    finally have "binade (of_int k) < 53"
      by (metis not_less pow2_mono)
    then have "quantum (of_int k) \<le> 0"
      by (simp add: quantum_def)
    then show ?thesis
      by (simp add: fl_pos_def grid_round_of_int)
  qed
  consider "n = 0" | "0 < n" | "n < 0" by linarith
  then show ?thesis
  proof cases
    case 1
    then show ?thesis by (simp add: fl_def)
  next
    case 2
    with assms pos [of n] show ?thesis by (simp add: fl_def)
  next
    case 3
    with assms pos [of "- n"] show ?thesis by (simp add: fl_def)
  qed
qed

subsection \<open>Add, then delete-last\<close>

text \<open>
  C9. Whatever the starting sequence, the inputs of the new meal and the outcome of the two
  file writes, \<open>delete_last_meal\<close> after \<open>add_meal\<close> leaves the in-memory sequence as it
  was before the meal was added: the record that \<open>add_meal\<close> put at the front, with its
  generated id and timestamps, is the one that is removed. When the second write goes
  through, the file holds that sequence too.
\<close>

theorem add_then_delete_last_restores:
  "meals (delete_last_meal ok2
            (add_meal stamp t1 t2 ok1 meal_type cal p c f note st)) = meals st
   \<and> data_file (delete_last_meal True
            (add_meal stamp t1 t2 ok1 meal_type cal p c f note st)) = meals st"
  by (simp add: delete_last_meal_def add_meal_def save_data_def Let_def)

subsection \<open>Evaluation rules for concrete records\<close>

lemmas num_defs =
  json_float_def to_float_def py_int_def py_round_def py_round2_def py_lt_def num_val_def
  py_div_def py_sum_def is_int_def

lemmas dt_defs =
  utc_datetime_def naive_datetime_def ymd2ord_def days_before_year_def
  days_before_month_def is_leap_def

lemmas fixture_defs =
  two_day_meals_def sample_meal_def bare_meal_def dt_defs

lemmas food_fixture_defs =
  food_meals_def meal_with_items_def sample_item_def bare_item_def bare_meal_def

lemmas item_defs = item_label_def item_calories_def item_protein_def

lemmas access_defs =
  meal_totals_def meal_macros_def meal_composition_def get_or_def
  empty_analysis_def empty_totals_def empty_macros_def empty_nutrition_def

lemmas leaf_defs =
  meal_calories_def meal_protein_def meal_carbs_def meal_fat_def meal_fiber_def
  meal_sugar_def

subsection \<open>Dictionaries in insertion order\<close>

lemma sum_dict_update:
  fixes g :: "'v \<Rightarrow> 'n :: comm_monoid_add"
  assumes "\<And>v. g (f v) = g v + c" and "g dflt = 0"
  shows "sum_list (map (\<lambda>x. g (snd x)) (dict_update k dflt f kvs))
           = sum_list (map (\<lambda>x. g (snd x)) kvs) + c"
  using assms by (induction kvs) (auto simp: add.assoc add.commute add.left_commute)

lemma map_fst_dict_update:
  "map fst (dict_update k dflt f kvs)
     = (if k \<in> set (map fst kvs) then map fst kvs else map fst kvs @ [k])"
  by (induction kvs) (auto split: if_splits)

lemma distinct_dict_update:
  "distinct (map fst kvs) \<Longrightarrow> distinct (map fst (dict_update k dflt f kvs))"
  by (simp add: map_fst_dict_update)

lemma dict_update_pred:
  assumes "\<forall>x\<in>set kvs. P (snd x)" and "\<And>v. P v \<Longrightarrow> P (f v)" and "P (f dflt)"
  shows "\<forall>x\<in>set (dict_update k dflt f kvs). P (snd x)"
  using assms(1) by (induction kvs) (fastforce simp: assms(2,3) split: if_splits)+

subsection \<open>The recency filter\<close>

text \<open>
  C2 at a failing input. The clock reads 2024-01-10T00:00:00 (\<open>datetime.now()\<close> is naive)
  and the only record is stamped \<open>2024-01-03T00:00:01Z\<close>, one second inside the
  seven-day window. The timestamp parses to an aware value, the cutoff is naive, and the
  comparison raises \<open>TypeError\<close>: the filter of the weekly report and the one of
  \<open>get_daily_averages\<close> return no list at all.
\<close>

theorem recency_filter_rejects_utc_timestamp:
  "report_recent_meals (naive_datetime 2024 1 10 0 0 0)
       [bare_meal (Some (utc_datetime 2024 1 3 0 0 1))] = Inl TypeError
   \<and> get_daily_averages (naive_datetime 2024 1 10 0 0 0) 7
       [bare_meal (Some (utc_datetime 2024 1 3 0 0 1))] = Inl TypeError"
  by (simp add: report_recent_meals_def get_daily_averages_def minus_days_def dt_gt_def
      bare_meal_def dt_defs Let_def)

text \<open>
  On timestamps written without an offset the filter is the strict one: it keeps, in
  order, the records later than the cutoff.
\<close>

lemma recent_meals_naive:
  assumes "utcoffset cutoff = None"
    and "\<forall>m\<in>set ms. \<exists>t. consumedAt m = Some t \<and> utcoffset t = None"
  shows "recent_meals cutoff ms =
    Inr (filter (\<lambda>m. case consumedAt m of
                        None \<Rightarrow> False
                      | Some t \<Rightarrow> local_usec cutoff < local_usec t) ms)"
  using assms by (induction ms) (auto simp: dt_gt_def)

lemma recent_meals_naive_boundary:
  "report_recent_meals (naive_datetime 2024 1 10 0 0 0)
       [bare_meal (Some (naive_datetime 2024 1 3 0 0 0)),
        bare_meal (Some (naive_datetime 2024 1 3 0 0 1))]
     = Inr [bare_meal (Some (naive_datetime 2024 1 3 0 0 1))]"
  by (simp add: report_recent_meals_def minus_days_def dt_gt_def
      bare_meal_def dt_defs Let_def local_usec_def)

subsection \<open>Absent fields\<close>

lemma fill_meal_leaves:
  "meal_calories (fill_defaults m) = meal_calories m"
  "meal_protein (fill_defaults m) = meal_protein m"
  "meal_carbs (fill_defaults m) = meal_carbs m"
  "meal_fat (fill_defaults m) = meal_fat m"
  "meal_fiber (fill_defaults m) = meal_fiber m"
  "meal_sugar (fill_defaults m) = meal_sugar m"
  by (simp_all add: leaf_defs fill_defaults_def fill_analysis_def fill_totals_def
      fill_macros_def meal_macros_def meal_totals_def get_or_def)

lemma fill_meal_composition:
  "meal_composition (fill_defaults m) = map fill_item (meal_composition m)"
  by (simp add: fill_defaults_def fill_analysis_def meal_composition_def get_or_def)

lemma fill_item_fields:
  "item_label (fill_item i) = item_label i"
  "item_calories (fill_item i) = item_calories i"
  "item_protein (fill_item i) = item_protein i"
  by (simp_all add: fill_item_def fill_nutrition_def fill_macros_def item_label_def
      item_calories_def item_protein_def get_or_def)

lemma add_to_totals_fill: "add_to_totals t (fill_defaults m) = add_to_totals t m"
  by (simp add: add_to_totals_def fill_meal_leaves)

lemma calculate_totals_fill: "calculate_totals (map fill_defaults ms) = calculate_totals ms"
proof -
  have "foldl add_to_totals t (map fill_defaults ms) = foldl add_to_totals t ms" for t
    by (induction ms arbitrary: t) (simp_all add: add_to_totals_fill)
  then show ?thesis
    by (simp add: calculate_totals_def)
qed

lemma count_item_fill: "count_item fc (fill_item i) = count_item fc i"
  by (simp add: count_item_def fill_item_fields)

lemma foldl_count_item_fill:
  "foldl count_item fc (map fill_item items) = foldl count_item fc items"
  by (induction items arbitrary: fc) (simp_all add: count_item_fill)

lemma food_count_of_fill: "food_count_of (map fill_defaults ms) = food_count_of ms"
proof -
  have "foldl (\<lambda>food_count m. foldl count_item food_count (meal_composition m)) fc
          (map fill_defaults ms)
        = foldl (\<lambda>food_count m. foldl count_item food_count (meal_composition m)) fc ms"
    for fc
    by (induction ms arbitrary: fc) (simp_all add: fill_meal_composition foldl_count_item_fill)
  then show ?thesis
    by (simp add: food_count_of_def)
qed

lemma get_top_foods_fill:
  "get_top_foods (map fill_defaults ms) limit = get_top_foods ms limit"
  by (simp add: get_top_foods_def sorted_foods_def food_count_of_fill)

subsection \<open>Counts of the aggregated labels\<close>

lemma count_item_positive:
  assumes "\<forall>x\<in>set fc. 1 \<le> count (snd x)"
  shows "\<forall>x\<in>set (count_item fc i). 1 \<le> count (snd x)"
  unfolding count_item_def by (rule dict_update_pred [OF assms]) simp_all

lemma foldl_count_item_positive:
  "\<forall>x\<in>set fc. 1 \<le> count (snd x) \<Longrightarrow>
   \<forall>x\<in>set (foldl count_item fc items). 1 \<le> count (snd x)"
proof (induction items arbitrary: fc)
  case Nil
  then show ?case by simp
next
  case (Cons i items)
  from Cons.IH [OF count_item_positive [OF Cons.prems]] show ?case
    by simp
qed

lemma food_count_of_positive: "\<forall>x\<in>set (food_count_of ms). 1 \<le> count (snd x)"
proof -
  have "\<forall>x\<in>set fc. 1 \<le> count (snd x) \<Longrightarrow>
        \<forall>x\<in>set (foldl (\<lambda>food_count m. foldl count_item food_count (meal_composition m))
                     fc ms). 1 \<le> count (snd x)" for fc
  proof (induction ms arbitrary: fc)
    case Nil
    then show ?case by simp
  next
    case (Cons m ms)
    from Cons.IH [OF foldl_count_item_positive [OF Cons.prems]] show ?case
      by simp
  qed
  from this [of "[]"] show ?thesis
    by (simp add: food_count_of_def)
qed

lemma collect_returns:
  "\<forall>x\<in>set xs. \<exists>y. f x = Inr y \<Longrightarrow> \<exists>ys. collect f xs = Inr ys"
  by (induction xs) auto

lemma collect_map:
  "\<forall>x\<in>set xs. f x = Inr (g x) \<Longrightarrow> collect f xs = Inr (map g xs)"
  by (induction xs) auto

lemma set_py_slice_to: "set (py_slice_to limit xs) \<subseteq> set xs"
  by (auto simp: py_slice_to_def dest: in_set_takeD)

lemma top_food_entry_positive:
  "1 \<le> count (snd x) \<Longrightarrow> top_food_entry x =
    Inr \<lparr>food = fst x, top_count = count (snd x),
          avg_calories =
            py_round2 (true_div (food_total_calories (snd x)) (PInt (count (snd x)))),
          avg_protein =
            py_round2 (true_div (food_total_protein (snd x)) (PInt (count (snd x))))\<rparr>"
  by (cases x) (simp add: top_food_entry_def py_div_def num_val_def)

lemma sliced_foods_positive:
  "\<forall>x\<in>set (py_slice_to limit (sorted_foods ms)). 1 \<le> count (snd x)"
  using food_count_of_positive [of ms] set_py_slice_to [of limit "sorted_foods ms"]
  by (auto simp: sorted_foods_def)

lemmas top_foods_eval_defs =
  get_top_foods_def sorted_foods_def food_count_of_def count_item_def
  top_food_entry_def py_slice_to_def num_defs fl_eval

text \<open>
  C7. Filling in every absent \<open>analysisData\<close>, \<open>totals\<close>, \<open>macros\<close>, \<open>nutrition\<close> and
  \<open>composition\<close> with the empty dictionary or sequence, and every absent numeric leaf with
  0, changes neither the nutrition totals nor the top foods: an absent leaf contributes 0
  and an absent composition no item. The totals are computed without any operation that
  can raise, and \<open>get_top_foods\<close> returns a result for every record list and limit.
\<close>

theorem absent_fields_count_as_zero:
  "calculate_totals (map fill_defaults ms) = calculate_totals ms
   \<and> get_top_foods (map fill_defaults ms) limit = get_top_foods ms limit
   \<and> (\<exists>r. get_top_foods ms limit = Inr r)
   \<and> calculate_totals (bare_meal t # ms) = calculate_totals ms
   \<and> get_top_foods (bare_meal t # ms) limit = get_top_foods ms limit"
proof -
  have "\<forall>x\<in>set (py_slice_to limit (sorted_foods ms)). \<exists>y. top_food_entry x = Inr y"
    using sliced_foods_positive [of limit ms] by (simp add: top_food_entry_positive)
  from collect_returns [OF this] have r: "\<exists>r. get_top_foods ms limit = Inr r"
    by (simp add: get_top_foods_def)
  have "add_to_totals
          \<lparr>calories = PInt 0, protein = PInt 0, carbs = PInt 0, fat = PInt 0, fiber = PInt 0\<rparr>
          (bare_meal t)
        = \<lparr>calories = PInt 0, protein = PInt 0, carbs = PInt 0, fat = PInt 0, fiber = PInt 0\<rparr>"
    by (simp add: add_to_totals_def bare_meal_def leaf_defs access_defs)
  then have b1: "calculate_totals (bare_meal t # ms) = calculate_totals ms"
    by (simp add: calculate_totals_def)
  have "meal_composition (bare_meal t) = []"
    by (simp add: bare_meal_def access_defs)
  then have b2: "get_top_foods (bare_meal t # ms) limit = get_top_foods ms limit"
    by (simp add: get_top_foods_def sorted_foods_def food_count_of_def)
  from calculate_totals_fill get_top_foods_fill r b1 b2 show ?thesis
    by blast
qed

theorem absent_fields_count_as_zero_witness:
  "calculate_totals (map fill_defaults two_day_meals)
     = \<lparr>calories = PInt 1150, protein = PInt 65, carbs = PInt 110, fat = PInt 40,
        fiber = PInt 0\<rparr>
   \<and> get_top_foods (map fill_defaults food_meals) 2
     = Inr [\<lparr>food = ''rice'', top_count = 3, avg_calories = json_float (13333 / 100),
             avg_protein = json_float (267 / 100)\<rparr>,
           \<lparr>food = ''egg'', top_count = 2, avg_calories = json_float 70,
             avg_protein = json_float 6\<rparr>]"
proof -
  have a: "calculate_totals two_day_meals
     = \<lparr>calories = PInt 1150, protein = PInt 65, carbs = PInt 110, fat = PInt 40,
        fiber = PInt 0\<rparr>"
    by (simp add: calculate_totals_def add_to_totals_def fixture_defs leaf_defs access_defs)
  have b: "get_top_foods food_meals 2
     = Inr [\<lparr>food = ''rice'', top_count = 3, avg_calories = json_float (13333 / 100),
             avg_protein = json_float (267 / 100)\<rparr>,
           \<lparr>food = ''egg'', top_count = 2, avg_calories = json_float 70,
             avg_protein = json_float 6\<rparr>]"
    by (simp add: top_foods_eval_defs food_fixture_defs item_defs access_defs)
  from absent_fields_count_as_zero [of two_day_meals 2]
    absent_fields_count_as_zero [of food_meals 2] a b
  show ?thesis
    by simp
qed

text \<open>
  C10. Every label that \<open>get_top_foods\<close> has aggregated carries a count of at least 1, so
  the two divisions by the count never see a zero: for every record list and every limit
  the function returns a list and raises nothing.
\<close>

theorem get_top_foods_counts_positive:
  "(\<forall>x\<in>set (food_count_of ms). 1 \<le> count (snd x))
   \<and> (\<exists>r. get_top_foods ms limit = Inr r)"
proof -
  have "\<forall>x\<in>set (py_slice_to limit (sorted_foods ms)). \<exists>y. top_food_entry x = Inr y"
    using sliced_foods_positive [of limit ms] by (simp add: top_food_entry_positive)
  from collect_returns [OF this] food_count_of_positive show ?thesis
    by (simp add: get_top_foods_def)
qed

theorem get_top_foods_counts_positive_witness:
  "map (\<lambda>x. (fst x, count (snd x))) (food_count_of food_meals)
     = [(''egg'', 2), (''rice'', 3), (''tofu'', 1), (''unknown'', 1)]
   \<and> list_all (\<lambda>x. 1 \<le> count (snd x)) (food_count_of food_meals)
   \<and> (\<exists>r. get_top_foods food_meals 10 = Inr r)"
proof -
  have a: "map (\<lambda>x. (fst x, count (snd x))) (food_count_of food_meals)
     = [(''egg'', 2), (''rice'', 3), (''tofu'', 1), (''unknown'', 1)]"
    by (simp add: food_count_of_def count_item_def food_fixture_defs item_defs access_defs)
  from get_top_foods_counts_positive [of food_meals 10] a show ?thesis
    by (simp add: list_all_iff)
qed

subsection \<open>The text gauge\<close>

lemma fl_zero [simp]: "fl 0 = 0"
  by (simp add: fl_def)

lemma fl_one [simp]: "fl 1 = 1"
  using fl_of_int [of 1] by simp

lemma fl_hundred [simp]: "fl 100 = 100"
  using fl_of_int [of 100] by simp

lemma fl_nonneg: "0 \<le> x \<Longrightarrow> 0 \<le> fl x"
  using fl_mono [of 0 x] by simp

lemma true_div_hundred:
  assumes "0 \<le> num_val p" "num_val p \<le> 100"
  shows "true_div p (PInt 100) = PFloat (fl (num_val p / 100))"
proof (cases p)
  case (PInt m)
  then show ?thesis by (simp add: num_val_def)
next
  case (PFloat v)
  then show ?thesis by (simp add: num_val_def to_float_def)
qed

lemma filled_glyphs_inside:
  assumes "0 \<le> num_val p" "num_val p \<le> 100" "0 \<le> w" "w \<le> 2 ^ 53"
  shows "filled_glyphs p w = \<lfloor>fl (fl (num_val p / 100) * of_int w)\<rfloor>"
    and "0 \<le> filled_glyphs p w" and "filled_glyphs p w \<le> w"
proof -
  let ?a = "fl (num_val p / 100)"
  let ?x = "fl (?a * of_int w)"
  have w: "fl (of_int w) = of_int w"
    using assms by (intro fl_of_int) simp
  have a0: "0 \<le> ?a"
    using assms by (intro fl_nonneg) simp
  have "?a \<le> fl 1"
    using assms by (intro fl_mono) simp
  then have a1: "?a \<le> 1" by simp
  have x0: "0 \<le> ?x"
    using a0 assms by (intro fl_nonneg) simp
  have "?a * of_int w \<le> 1 * of_int w"
    using a1 assms by (intro mult_right_mono) simp_all
  then have "?x \<le> fl (of_int w)"
    by (intro fl_mono) simp
  then have xw: "?x \<le> of_int w"
    by (simp add: w)
  have f: "filled_glyphs p w = py_int (PFloat ?x)"
    by (simp add: filled_glyphs_def true_div_hundred [OF assms(1,2)] to_float_def w)
  with x0 show "filled_glyphs p w = \<lfloor>?x\<rfloor>"
    by (simp add: py_int_def)
  with x0 show "0 \<le> filled_glyphs p w"
    by simp
  from xw have "\<lfloor>?x\<rfloor> \<le> w"
    by (simp add: floor_le_iff)
  with \<open>filled_glyphs p w = \<lfloor>?x\<rfloor>\<close> show "filled_glyphs p w \<le> w"
    by simp
qed

text \<open>
  C3 as stated fails: the number of filled glyphs is the truncation \<open>int(...)\<close> of the
  double \<open>percentage / 100 * width\<close>, not its rounding. At 49 percent and width 40 the
  product is 19.6: the code fills 19 glyphs, rounding fills 20.
\<close>

theorem create_bar_not_rounded:
  "create_bar (PInt 49) 40 = replicate 19 FULL_BLOCK @ replicate 21 LIGHT_SHADE
   \<and> renderBar_spec (PInt 49) 40 = replicate 20 FULL_BLOCK @ replicate 20 LIGHT_SHADE
   \<and> round_half_even (49 / 100 * 40) = 20
   \<and> create_bar (PInt 49) 40 \<noteq> renderBar_spec (PInt 49) 40"
proof -
  have a: "create_bar (PInt 49) 40 = replicate 19 FULL_BLOCK @ replicate 21 LIGHT_SHADE"
    by (simp add: create_bar_def filled_glyphs_def num_defs fl_eval)
  have b: "renderBar_spec (PInt 49) 40 = replicate 20 FULL_BLOCK @ replicate 20 LIGHT_SHADE"
    by (simp add: renderBar_spec_def num_defs fl_eval)
  have c: "round_half_even (49 / 100 * 40) = 20"
    by (simp add: round_half_even_def Let_def)
  have "create_bar (PInt 49) 40 ! 19 = LIGHT_SHADE"
    by (simp add: a nth_append)
  moreover have "renderBar_spec (PInt 49) 40 ! 19 = FULL_BLOCK"
    by (simp add: b nth_append)
  moreover have "FULL_BLOCK \<noteq> LIGHT_SHADE"
    by (simp add: FULL_BLOCK_def LIGHT_SHADE_def)
  ultimately have "create_bar (PInt 49) 40 \<noteq> renderBar_spec (PInt 49) 40"
    by metis
  with a b c show ?thesis by blast
qed

text \<open>
  C3, amended. For every percentage and width the gauge is
  \<open>int((percentage / 100) * width)\<close> filled glyphs, the double product truncated towards
  zero and not rounded, followed by \<open>width\<close> minus that many unfilled glyphs (a negative
  number of glyphs gives none). For a percentage between 0 and 100 and a width between 0 and
  \<open>2 ^ 53\<close> the number of filled glyphs is the floor of the double product (the quotient
  and the product each rounded to the nearest double), it lies between 0 and the width, and
  the gauge is exactly \<open>width\<close> glyphs wide. At width 40 the gauge for 50 percent is 20
  filled and 20 unfilled glyphs, for 0 percent no filled glyph, for 100 percent 40 filled
  glyphs.
\<close>

theorem create_bar_truncates:
  "create_bar p w =
     replicate (nat (filled_glyphs p w)) FULL_BLOCK
       @ replicate (nat (w - filled_glyphs p w)) LIGHT_SHADE
   \<and> filled_glyphs p w = py_int (py_mul (true_div p (PInt 100)) (PInt w))
   \<and> (0 \<le> num_val p \<and> num_val p \<le> 100 \<and> 0 \<le> w \<and> w \<le> 2 ^ 53 \<longrightarrow>
        filled_glyphs p w = \<lfloor>fl (fl (num_val p / 100) * of_int w)\<rfloor>
        \<and> 0 \<le> filled_glyphs p w
        \<and> filled_glyphs p w \<le> w
        \<and> length (create_bar p w) = nat w)
   \<and> create_bar (PInt 50) 40 = replicate 20 FULL_BLOCK @ replicate 20 LIGHT_SHADE
   \<and> create_bar (PInt 0) 40 = replicate 40 LIGHT_SHADE
   \<and> create_bar (PInt 100) 40 = replicate 40 FULL_BLOCK"
proof -
  have shape: "create_bar p w =
     replicate (nat (filled_glyphs p w)) FULL_BLOCK
       @ replicate (nat (w - filled_glyphs p w)) LIGHT_SHADE"
    by (simp add: create_bar_def Let_def)
  have inside: "filled_glyphs p w = \<lfloor>fl (fl (num_val p / 100) * of_int w)\<rfloor>
      \<and> 0 \<le> filled_glyphs p w \<and> filled_glyphs p w \<le> w
      \<and> length (create_bar p w) = nat w"
    if h: "0 \<le> num_val p" "num_val p \<le> 100" "0 \<le> w" "w \<le> 2 ^ 53"
  proof -
    note f = filled_glyphs_inside [OF h]
    have "nat (filled_glyphs p w) + nat (w - filled_glyphs p w) = nat w"
      using f(2,3) by linarith
    then have "length (create_bar p w) = nat w"
      by (simp only: shape length_append length_replicate)
    with f show ?thesis
      by simp
  qed
  have e50: "create_bar (PInt 50) 40 = replicate 20 FULL_BLOCK @ replicate 20 LIGHT_SHADE"
    by (simp add: create_bar_def filled_glyphs_def num_defs fl_eval)
  have e0: "create_bar (PInt 0) 40 = replicate 40 LIGHT_SHADE"
    by (simp add: create_bar_def filled_glyphs_def num_defs fl_eval)
  have e100: "create_bar (PInt 100) 40 = replicate 40 FULL_BLOCK"
    by (simp add: create_bar_def filled_glyphs_def num_defs fl_eval)
  have d: "filled_glyphs p w = py_int (py_mul (true_div p (PInt 100)) (PInt w))"
    by (simp add: filled_glyphs_def)
  from shape d inside e50 e0 e100 show ?thesis
    by blast
qed

theorem create_bar_truncates_witness:
  "create_bar (PInt 29) 100 = replicate 28 FULL_BLOCK @ replicate 72 LIGHT_SHADE
   \<and> length (create_bar (PInt 29) 100) = 100
   \<and> create_bar (py_mul (true_div (PInt 23) (PInt 40)) (PInt 100)) 40
       = replicate 23 FULL_BLOCK @ replicate 17 LIGHT_SHADE
   \<and> create_bar (json_float (333 / 10)) 40 = replicate 13 FULL_BLOCK @ replicate 27 LIGHT_SHADE
   \<and> create_bar (PInt 150) 40 = replicate 60 FULL_BLOCK
   \<and> create_bar (PInt (- 50)) 40 = replicate 60 LIGHT_SHADE"
proof -
  have h: "0 \<le> num_val (PInt 29) \<and> num_val (PInt 29) \<le> 100 \<and> (0 :: int) \<le> 100
      \<and> (100 :: int) \<le> 2 ^ 53"
    by (simp add: num_val_def)
  have a: "\<lfloor>fl (fl (num_val (PInt 29) / 100) * of_int 100)\<rfloor> = 28"
    by (simp add: num_val_def fl_eval)
  note t = create_bar_truncates [of "PInt 29" 100]
  note inside = t [THEN conjunct2, THEN conjunct2, THEN conjunct1, THEN mp, OF h]
  from inside a have f: "filled_glyphs (PInt 29) 100 = 28"
    by simp
  from t [THEN conjunct1] f inside
  have one: "create_bar (PInt 29) 100 = replicate 28 FULL_BLOCK @ replicate 72 LIGHT_SHADE
      \<and> length (create_bar (PInt 29) 100) = 100"
    by simp
  have b: "filled_glyphs (py_mul (true_div (PInt 23) (PInt 40)) (PInt 100)) 40 = 23"
    by (simp add: filled_glyphs_def num_defs fl_eval)
  have two: "create_bar (py_mul (true_div (PInt 23) (PInt 40)) (PInt 100)) 40
       = replicate 23 FULL_BLOCK @ replicate 17 LIGHT_SHADE"
    by (simp only: create_bar_truncates [THEN conjunct1] b) simp
  have c: "filled_glyphs (json_float (333 / 10)) 40 = 13"
    by (simp add: filled_glyphs_def num_defs fl_eval)
  have three: "create_bar (json_float (333 / 10)) 40
       = replicate 13 FULL_BLOCK @ replicate 27 LIGHT_SHADE"
    by (simp only: create_bar_truncates [THEN conjunct1] c) simp
  have d: "filled_glyphs (PInt 150) 40 = 60"
    by (simp add: filled_glyphs_def num_defs fl_eval)
  have four: "create_bar (PInt 150) 40 = replicate 60 FULL_BLOCK"
    by (simp only: create_bar_truncates [THEN conjunct1] d) simp
  have e: "filled_glyphs (PInt (- 50)) 40 = - 20"
    by (simp add: filled_glyphs_def num_defs fl_eval)
  have five: "create_bar (PInt (- 50)) 40 = replicate 60 LIGHT_SHADE"
    by (simp only: create_bar_truncates [THEN conjunct1] e) simp
  from one two three four five show ?thesis
    by blast
qed

subsection \<open>Recommendations\<close>

lemma advisories_differ:
  "MSG_LOW_CALORIES \<noteq> MSG_HIGH_CALORIES"
  "MSG_LOW_CALORIES \<noteq> MSG_LOW_PROTEIN"
  "MSG_LOW_CALORIES \<noteq> MSG_HIGH_PROTEIN"
  "MSG_LOW_CALORIES \<noteq> MSG_MEAL_FREQUENCY"
  "MSG_LOW_CALORIES \<noteq> MSG_PROTEIN_SHARE"
  "MSG_LOW_CALORIES \<noteq> MSG_CARB_SHARE"
  "MSG_LOW_CALORIES \<noteq> MSG_BALANCED"
  "MSG_HIGH_CALORIES \<noteq> MSG_LOW_CALORIES"
  "MSG_HIGH_CALORIES \<noteq> MSG_LOW_PROTEIN"
  "MSG_HIGH_CALORIES \<noteq> MSG_HIGH_PROTEIN"
  "MSG_HIGH_CALORIES \<noteq> MSG_MEAL_FREQUENCY"
  "MSG_HIGH_CALORIES \<noteq> MSG_PROTEIN_SHARE"
  "MSG_HIGH_CALORIES \<noteq> MSG_CARB_SHARE"
  "MSG_HIGH_CALORIES \<noteq> MSG_BALANCED"
  "MSG_LOW_PROTEIN \<noteq> MSG_LOW_CALORIES"
  "MSG_LOW_PROTEIN \<noteq> MSG_HIGH_CALORIES"
  "MSG_LOW_PROTEIN \<noteq> MSG_HIGH_PROTEIN"
  "MSG_LOW_PROTEIN \<noteq> MSG_MEAL_FREQUENCY"
  "MSG_LOW_PROTEIN \<noteq> MSG_PROTEIN_SHARE"
  "MSG_LOW_PROTEIN \<noteq> MSG_CARB_SHARE"
  "MSG_LOW_PROTEIN \<noteq> MSG_BALANCED"
  "MSG_HIGH_PROTEIN \<noteq> MSG_LOW_CALORIES"
  "MSG_HIGH_PROTEIN \<noteq> MSG_HIGH_CALORIES"
  "MSG_HIGH_PROTEIN \<noteq> MSG_LOW_PROTEIN"
  "MSG_HIGH_PROTEIN \<noteq> MSG_MEAL_FREQUENCY"
  "MSG_HIGH_PROTEIN \<noteq> MSG_PROTEIN_SHARE"
  "MSG_HIGH_PROTEIN \<noteq> MSG_CARB_SHARE"
  "MSG_HIGH_PROTEIN \<noteq> MSG_BALANCED"
  "MSG_MEAL_FREQUENCY \<noteq> MSG_LOW_CALORIES"
  "MSG_MEAL_FREQUENCY \<noteq> MSG_HIGH_CALORIES"
  "MSG_MEAL_FREQUENCY \<noteq> MSG_LOW_PROTEIN"
  "MSG_MEAL_FREQUENCY \<noteq> MSG_HIGH_PROTEIN"
  "MSG_MEAL_FREQUENCY \<noteq> MSG_PROTEIN_SHARE"
  "MSG_MEAL_FREQUENCY \<noteq> MSG_CARB_SHARE"
  "MSG_MEAL_FREQUENCY \<noteq> MSG_BALANCED"
  "MSG_PROTEIN_SHARE \<noteq> MSG_LOW_CALORIES"
  "MSG_PROTEIN_SHARE \<noteq> MSG_HIGH_CALORIES"
  "MSG_PROTEIN_SHARE \<noteq> MSG_LOW_PROTEIN"
  "MSG_PROTEIN_SHARE \<noteq> MSG_HIGH_PROTEIN"
  "MSG_PROTEIN_SHARE \<noteq> MSG_MEAL_FREQUENCY"
  "MSG_PROTEIN_SHARE \<noteq> MSG_CARB_SHARE"
  "MSG_PROTEIN_SHARE \<noteq> MSG_BALANCED"
  "MSG_CARB_SHARE \<noteq> MSG_LOW_CALORIES"
  "MSG_CARB_SHARE \<noteq> MSG_HIGH_CALORIES"
  "MSG_CARB_SHARE \<noteq> MSG_LOW_PROTEIN"
  "MSG_CARB_SHARE \<noteq> MSG_HIGH_PROTEIN"
  "MSG_CARB_SHARE \<noteq> MSG_MEAL_FREQUENCY"
  "MSG_CARB_SHARE \<noteq> MSG_PROTEIN_SHARE"
  "MSG_CARB_SHARE \<noteq> MSG_BALANCED"
  "MSG_BALANCED \<noteq> MSG_LOW_CALORIES"
  "MSG_BALANCED \<noteq> MSG_HIGH_CALORIES"
  "MSG_BALANCED \<noteq> MSG_LOW_PROTEIN"
  "MSG_BALANCED \<noteq> MSG_HIGH_PROTEIN"
  "MSG_BALANCED \<noteq> MSG_MEAL_FREQUENCY"
  "MSG_BALANCED \<noteq> MSG_PROTEIN_SHARE"
  "MSG_BALANCED \<noteq> MSG_CARB_SHARE"
  by (simp_all add: MSG_LOW_CALORIES_def MSG_HIGH_CALORIES_def MSG_LOW_PROTEIN_def
      MSG_HIGH_PROTEIN_def MSG_MEAL_FREQUENCY_def MSG_PROTEIN_SHARE_def
      MSG_CARB_SHARE_def MSG_BALANCED_def)

lemma thresholds_exclusive:
  "py_lt (PInt 2500) a \<Longrightarrow> \<not> py_lt a (PInt 1500)"
  "py_lt (PInt 150) a \<Longrightarrow> \<not> py_lt a (PInt 50)"
  by (simp_all add: py_lt_def num_val_def)

lemma generate_recommendations_table:
  "generate_recommendations w ms = recommendations_spec w ms"
  by (simp add: generate_recommendations_def recommendations_spec_def advisory_rules_def
      macro_share_def Let_def thresholds_exclusive)

lemma meals_per_day_rule:
  "py_lt (true_div (PInt (int n)) (PInt 7)) (PInt 2) = (n < 14)"
proof (cases "n < 14")
  case True
  then have "(of_int (int n) :: rat) / of_int 7 \<le> 13 / 7"
    by simp
  from fl_mono [OF this] have "fl (of_int (int n) / of_int 7) \<le> fl (13 / 7)" .
  also have "fl (13 / 7) < 2"
    by (simp add: fl_eval)
  finally show ?thesis
    using True by (simp add: py_lt_def num_val_def)
next
  case False
  then have "(2 :: rat) \<le> of_int (int n) / of_int 7"
    by simp
  from fl_mono [OF this] have "fl 2 \<le> fl (of_int (int n) / of_int 7)" .
  moreover have "fl 2 = 2"
    using fl_of_int [of 2] by simp
  ultimately show ?thesis
    using False by (simp add: py_lt_def num_val_def)
qed

text \<open>
  C4. \<open>_generate_recommendations\<close> computes the table of threshold conditions of the
  specification, in its order: average daily calories (total / 7) below 1500 or above 2500,
  average daily protein below 50 or above 150, fewer than 2 meals per day on average,
  protein below 15 percent or carbs above 60 percent of the macro grams (a share exists
  when the macro grams are positive). The averages and shares are the doubles that the
  divisions and the multiplication by 100 give, compared exactly with the thresholds. Each
  condition that holds appends its advisory, the two calorie advisories never appear
  together, nor the two protein advisories, the meal advisory appears exactly when there
  are fewer than 14 records, and the result is the single affirmation exactly when no
  condition holds.
\<close>

theorem generate_recommendations_rules:
  "generate_recommendations w ms = recommendations_spec w ms
   \<and> (generate_recommendations w ms = [MSG_BALANCED])
       = (\<forall>r\<in>set (advisory_rules w ms). \<not> fst r)
   \<and> (MSG_BALANCED \<in> set (generate_recommendations w ms))
       = (\<forall>r\<in>set (advisory_rules w ms). \<not> fst r)
   \<and> \<not> (MSG_LOW_CALORIES \<in> set (generate_recommendations w ms)
          \<and> MSG_HIGH_CALORIES \<in> set (generate_recommendations w ms))
   \<and> \<not> (MSG_LOW_PROTEIN \<in> set (generate_recommendations w ms)
          \<and> MSG_HIGH_PROTEIN \<in> set (generate_recommendations w ms))
   \<and> (MSG_MEAL_FREQUENCY \<in> set (generate_recommendations w ms)) = (length ms < 14)"
proof -
  have a: "(generate_recommendations w ms = [MSG_BALANCED])
       = (\<forall>r\<in>set (advisory_rules w ms). \<not> fst r)"
    by (simp add: generate_recommendations_table recommendations_spec_def
        advisory_rules_def Let_def advisories_differ)
  have b: "(MSG_BALANCED \<in> set (generate_recommendations w ms))
       = (\<forall>r\<in>set (advisory_rules w ms). \<not> fst r)"
    by (simp add: generate_recommendations_table recommendations_spec_def
        advisory_rules_def Let_def advisories_differ)
  have c: "\<not> (MSG_LOW_CALORIES \<in> set (generate_recommendations w ms)
          \<and> MSG_HIGH_CALORIES \<in> set (generate_recommendations w ms))"
    by (simp add: generate_recommendations_table recommendations_spec_def
        advisory_rules_def Let_def advisories_differ thresholds_exclusive)
  have d: "\<not> (MSG_LOW_PROTEIN \<in> set (generate_recommendations w ms)
          \<and> MSG_HIGH_PROTEIN \<in> set (generate_recommendations w ms))"
    by (simp add: generate_recommendations_table recommendations_spec_def
        advisory_rules_def Let_def advisories_differ thresholds_exclusive)
  have e: "(MSG_MEAL_FREQUENCY \<in> set (generate_recommendations w ms)) = (length ms < 14)"
    by (simp add: generate_recommendations_table recommendations_spec_def
        advisory_rules_def Let_def advisories_differ meals_per_day_rule
        del: true_div.simps)
  from a b c d e generate_recommendations_table show ?thesis
    by blast
qed

theorem generate_recommendations_rules_witness:
  "generate_recommendations
      \<lparr>calories = PInt 14000, protein = PInt 700, carbs = PInt 1400, fat = PInt 500,
       fiber = PInt 0\<rparr>
      (replicate 14 (bare_meal None)) = [MSG_BALANCED]
   \<and> generate_recommendations
      \<lparr>calories = json_float 14000, protein = json_float 420,
       carbs = json_float (12009 / 10), fat = json_float (3806 / 10), fiber = PInt 0\<rparr>
      (replicate 14 (bare_meal None)) = [MSG_CARB_SHARE]
   \<and> generate_recommendations
      \<lparr>calories = PInt 1150, protein = PInt 65, carbs = PInt 110, fat = PInt 40,
       fiber = PInt 0\<rparr> two_day_meals
       = [MSG_LOW_CALORIES, MSG_LOW_PROTEIN, MSG_MEAL_FREQUENCY]
   \<and> generate_recommendations
      \<lparr>calories = PInt 21000, protein = PInt 70, carbs = PInt 4000, fat = PInt 100,
       fiber = PInt 0\<rparr> two_day_meals
       = [MSG_HIGH_CALORIES, MSG_LOW_PROTEIN, MSG_MEAL_FREQUENCY, MSG_PROTEIN_SHARE,
          MSG_CARB_SHARE]"
proof -
  let ?w = "\<lparr>calories = PInt 14000, protein = PInt 700, carbs = PInt 1400, fat = PInt 500,
       fiber = PInt 0\<rparr>"
  have "\<forall>r\<in>set (advisory_rules ?w (replicate 14 (bare_meal None))). \<not> fst r"
    by (simp add: advisory_rules_def macro_share_def Let_def num_defs fl_eval)
  with generate_recommendations_rules [of ?w "replicate 14 (bare_meal None)"]
  have one: "generate_recommendations ?w (replicate 14 (bare_meal None)) = [MSG_BALANCED]"
    by blast
  let ?v = "\<lparr>calories = json_float 14000, protein = json_float 420,
       carbs = json_float (12009 / 10), fat = json_float (3806 / 10), fiber = PInt 0\<rparr>"
  have "map fst (advisory_rules ?v (replicate 14 (bare_meal None)))
      = [False, False, False, False, False, False, True]"
    by (simp add: advisory_rules_def macro_share_def Let_def num_defs fl_eval)
  then have "recommendations_spec ?v (replicate 14 (bare_meal None)) = [MSG_CARB_SHARE]"
    by (simp add: recommendations_spec_def advisory_rules_def Let_def)
  with generate_recommendations_rules [of ?v "replicate 14 (bare_meal None)"]
  have r4: "generate_recommendations ?v (replicate 14 (bare_meal None)) = [MSG_CARB_SHARE]"
    by simp
  have two: "generate_recommendations
      \<lparr>calories = PInt 1150, protein = PInt 65, carbs = PInt 110, fat = PInt 40,
       fiber = PInt 0\<rparr> two_day_meals
       = [MSG_LOW_CALORIES, MSG_LOW_PROTEIN, MSG_MEAL_FREQUENCY]"
    using generate_recommendations_rules
      [of "\<lparr>calories = PInt 1150, protein = PInt 65, carbs = PInt 110, fat = PInt 40,
       fiber = PInt 0\<rparr>" two_day_meals]
    by (simp add: recommendations_spec_def advisory_rules_def macro_share_def Let_def
        two_day_meals_def num_defs fl_eval)
  have three: "generate_recommendations
      \<lparr>calories = PInt 21000, protein = PInt 70, carbs = PInt 4000, fat = PInt 100,
       fiber = PInt 0\<rparr> two_day_meals
       = [MSG_HIGH_CALORIES, MSG_LOW_PROTEIN, MSG_MEAL_FREQUENCY, MSG_PROTEIN_SHARE,
          MSG_CARB_SHARE]"
    using generate_recommendations_rules
      [of "\<lparr>calories = PInt 21000, protein = PInt 70, carbs = PInt 4000, fat = PInt 100,
       fiber = PInt 0\<rparr>" two_day_meals]
    by (simp add: recommendations_spec_def advisory_rules_def macro_share_def Let_def
        two_day_meals_def num_defs fl_eval)
  from one r4 two three show ?thesis
    by blast
qed

subsection \<open>Macro percentages\<close>

lemma foldl_analyze_macros_step:
  "foldl analyze_macros_step (tp, tc, tf, tcal) ms =
     (foldl py_add tp (map meal_protein ms), foldl py_add tc (map meal_carbs ms),
      foldl py_add tf (map meal_fat ms), foldl py_add tcal (map meal_calories ms))"
  by (induction ms arbitrary: tp tc tf tcal) (simp_all add: analyze_macros_step_def)

lemma analyze_macros_sums_eq:
  "analyze_macros_sums ms =
     (py_sum (map meal_protein ms), py_sum (map meal_carbs ms), py_sum (map meal_fat ms),
      py_sum (map meal_calories ms))"
  by (simp add: analyze_macros_sums_def foldl_analyze_macros_step py_sum_def)

lemma macro_percentages_cases:
  "macro_percentages tp tc tf =
     Inr (if py_lt (PInt 0) (py_add (py_add tp tc) tf)
          then (py_mul (true_div tp (py_add (py_add tp tc) tf)) (PInt 100),
                py_mul (true_div tc (py_add (py_add tp tc) tf)) (PInt 100),
                py_mul (true_div tf (py_add (py_add tp tc) tf)) (PInt 100))
          else (PInt 0, PInt 0, PInt 0))"
  by (simp add: macro_percentages_def py_div_def py_lt_def Let_def num_val_def
      del: true_div.simps py_mul.simps py_add.simps)

text \<open>
  C6 as stated fails in its last clause: when the macro sum is not 0 the percentages are
  not always the macro's total divided by the sum times 100. The guard is
  \<open>total_grams > 0\<close>, so a negative sum gives three zeros too. One meal entered with
  \<open>meal_tracker.py add snack 0 -5 2 1\<close> has the totals -5.0, 2.0 and 1.0, which sum to
  -2.0: the code returns 0 for every percentage, where the protein total divided by the sum
  times 100 is 250.0.
\<close>

theorem analyze_macros_negative_sum:
  "analyze_macros_sums negative_meals
     = (json_float (- 5), json_float 2, json_float 1, json_float 0)
   \<and> num_val (py_add (py_add (json_float (- 5)) (json_float 2)) (json_float 1)) = - 2
   \<and> macro_percentages (json_float (- 5)) (json_float 2) (json_float 1)
       = Inr (PInt 0, PInt 0, PInt 0)
   \<and> num_val (macro_share (json_float (- 5))
        (py_add (py_add (json_float (- 5)) (json_float 2)) (json_float 1))) = 250
   \<and> analyze_macros negative_meals =
        Inr \<lparr>total_protein = json_float (- 5), total_carbs = json_float 2,
             total_fat = json_float 1, total_calories = json_float 0,
             protein_percentage = PInt 0, carbs_percentage = PInt 0,
             fat_percentage = PInt 0\<rparr>"
proof -
  have s: "analyze_macros_sums negative_meals
     = (json_float (- 5), json_float 2, json_float 1, json_float 0)"
    by (simp add: analyze_macros_sums_def analyze_macros_step_def negative_meals_def
        sample_meal_def leaf_defs access_defs num_defs fl_eval)
  have t: "num_val (py_add (py_add (json_float (- 5)) (json_float 2)) (json_float 1)) = - 2"
    by (simp add: num_defs fl_eval)
  have p: "macro_percentages (json_float (- 5)) (json_float 2) (json_float 1)
       = Inr (PInt 0, PInt 0, PInt 0)"
    by (simp add: macro_percentages_def Let_def num_defs fl_eval)
  have f: "num_val (macro_share (json_float (- 5))
        (py_add (py_add (json_float (- 5)) (json_float 2)) (json_float 1))) = 250"
    by (simp add: macro_share_def num_defs fl_eval)
  have a: "analyze_macros negative_meals =
        Inr \<lparr>total_protein = json_float (- 5), total_carbs = json_float 2,
             total_fat = json_float 1, total_calories = json_float 0,
             protein_percentage = PInt 0, carbs_percentage = PInt 0,
             fat_percentage = PInt 0\<rparr>"
    by (simp add: analyze_macros_def s p) (simp add: num_defs fl_eval)
  from s t p f a show ?thesis
    by blast
qed

text \<open>
  C6, amended. Let \<open>tp\<close>, \<open>tc\<close>, \<open>tf\<close> be the protein, carbs and fat gram totals that
  \<open>analyze_macros\<close> accumulates over the records, in list order, and
  \<open>total_grams = tp + tc + tf\<close>. The percentage computation never raises. Whenever
  \<open>total_grams\<close> is not positive (0, as for the empty list, or negative) all three
  percentages are 0; whenever it is positive each is the double
  \<open>(total / total_grams) * 100\<close>. These two cases are all there is. The function returns
  the totals and the three percentages, each passed through \<open>round(_, 2)\<close>.
\<close>

theorem analyze_macros_guarded:
  assumes "analyze_macros_sums ms = (tp, tc, tf, tcal)"
  shows "\<exists>p c f. macro_percentages tp tc tf = Inr (p, c, f)
     \<and> analyze_macros ms =
         Inr \<lparr>total_protein = py_round2 tp, total_carbs = py_round2 tc,
              total_fat = py_round2 tf, total_calories = py_round2 tcal,
              protein_percentage = py_round2 p, carbs_percentage = py_round2 c,
              fat_percentage = py_round2 f\<rparr>
     \<and> tp = py_sum (map meal_protein ms)
     \<and> tc = py_sum (map meal_carbs ms)
     \<and> tf = py_sum (map meal_fat ms)
     \<and> (num_val (py_add (py_add tp tc) tf) \<le> 0 \<longrightarrow>
          p = PInt 0 \<and> c = PInt 0 \<and> f = PInt 0)
     \<and> (0 < num_val (py_add (py_add tp tc) tf) \<longrightarrow>
          p = py_mul (true_div tp (py_add (py_add tp tc) tf)) (PInt 100)
          \<and> c = py_mul (true_div tc (py_add (py_add tp tc) tf)) (PInt 100)
          \<and> f = py_mul (true_div tf (py_add (py_add tp tc) tf)) (PInt 100))
     \<and> (ms = [] \<longrightarrow> py_add (py_add tp tc) tf = PInt 0)"
proof -
  let ?g = "py_add (py_add tp tc) tf"
  have sums: "tp = py_sum (map meal_protein ms)" "tc = py_sum (map meal_carbs ms)"
    "tf = py_sum (map meal_fat ms)"
    using assms by (simp_all add: analyze_macros_sums_eq)
  have e: "ms = [] \<longrightarrow> ?g = PInt 0"
    using sums by (simp add: py_sum_def)
  have r: "analyze_macros ms =
         Inr \<lparr>total_protein = py_round2 tp, total_carbs = py_round2 tc,
              total_fat = py_round2 tf, total_calories = py_round2 tcal,
              protein_percentage = py_round2 p, carbs_percentage = py_round2 c,
              fat_percentage = py_round2 f\<rparr>"
    if "macro_percentages tp tc tf = Inr (p, c, f)" for p c f
    using that by (simp add: analyze_macros_def assms)
  show ?thesis
  proof (cases "0 < num_val ?g")
    case True
    then have "macro_percentages tp tc tf =
        Inr (py_mul (true_div tp ?g) (PInt 100), py_mul (true_div tc ?g) (PInt 100),
             py_mul (true_div tf ?g) (PInt 100))"
      by (simp add: macro_percentages_cases py_lt_def num_val_def
          del: true_div.simps py_mul.simps py_add.simps)
    from this r [OF this] sums True e show ?thesis
      by (auto simp del: true_div.simps py_mul.simps py_add.simps)
  next
    case False
    then have "macro_percentages tp tc tf = Inr (PInt 0, PInt 0, PInt 0)"
      by (simp add: macro_percentages_cases py_lt_def num_val_def
          del: true_div.simps py_mul.simps py_add.simps)
    from this r [OF this] sums False e show ?thesis
      by (auto simp del: true_div.simps py_mul.simps py_add.simps)
  qed
qed

theorem analyze_macros_guarded_witness:
  "analyze_macros two_day_meals =
        Inr \<lparr>total_protein = PInt 65, total_carbs = PInt 110, total_fat = PInt 40,
             total_calories = PInt 1150, protein_percentage = json_float (3023 / 100),
             carbs_percentage = json_float (5116 / 100),
             fat_percentage = json_float (186 / 10)\<rparr>
   \<and> analyze_macros [] =
        Inr \<lparr>total_protein = PInt 0, total_carbs = PInt 0, total_fat = PInt 0,
             total_calories = PInt 0, protein_percentage = PInt 0, carbs_percentage = PInt 0,
             fat_percentage = PInt 0\<rparr>
   \<and> analyze_macros
        [sample_meal (naive_datetime 2024 1 1 8 0 0) (PInt 0) (json_float (2675 / 1000))
           (PInt 0) (PInt 0)] =
        Inr \<lparr>total_protein = json_float (267 / 100), total_carbs = PInt 0, total_fat = PInt 0,
             total_calories = PInt 0, protein_percentage = json_float 100,
             carbs_percentage = json_float 0, fat_percentage = json_float 0\<rparr>"
proof -
  have s: "analyze_macros_sums two_day_meals = (PInt 65, PInt 110, PInt 40, PInt 1150)"
    by (simp add: analyze_macros_sums_def analyze_macros_step_def fixture_defs leaf_defs
        access_defs)
  have g: "0 < num_val (py_add (py_add (PInt 65) (PInt 110)) (PInt 40))"
    by (simp add: num_val_def)
  from analyze_macros_guarded [OF s] obtain p c f where
    a: "analyze_macros two_day_meals =
         Inr \<lparr>total_protein = py_round2 (PInt 65), total_carbs = py_round2 (PInt 110),
              total_fat = py_round2 (PInt 40), total_calories = py_round2 (PInt 1150),
              protein_percentage = py_round2 p, carbs_percentage = py_round2 c,
              fat_percentage = py_round2 f\<rparr>"
    and pos: "0 < num_val (py_add (py_add (PInt 65) (PInt 110)) (PInt 40)) \<longrightarrow>
          p = py_mul (true_div (PInt 65) (py_add (py_add (PInt 65) (PInt 110)) (PInt 40)))
                (PInt 100)
          \<and> c = py_mul (true_div (PInt 110) (py_add (py_add (PInt 65) (PInt 110)) (PInt 40)))
                (PInt 100)
          \<and> f = py_mul (true_div (PInt 40) (py_add (py_add (PInt 65) (PInt 110)) (PInt 40)))
                (PInt 100)"
    by blast
  from pos g a have one: "analyze_macros two_day_meals =
        Inr \<lparr>total_protein = PInt 65, total_carbs = PInt 110, total_fat = PInt 40,
             total_calories = PInt 1150, protein_percentage = json_float (3023 / 100),
             carbs_percentage = json_float (5116 / 100),
             fat_percentage = json_float (186 / 10)\<rparr>"
    by (simp add: num_defs fl_eval)
  have z: "analyze_macros_sums [] = (PInt 0, PInt 0, PInt 0, PInt 0)"
    by (simp add: analyze_macros_sums_def)
  have gz: "num_val (py_add (py_add (PInt 0) (PInt 0)) (PInt 0)) \<le> 0"
    by (simp add: num_val_def)
  from analyze_macros_guarded [OF z] obtain p0 c0 f0 where
    a0: "analyze_macros [] =
         Inr \<lparr>total_protein = py_round2 (PInt 0), total_carbs = py_round2 (PInt 0),
              total_fat = py_round2 (PInt 0), total_calories = py_round2 (PInt 0),
              protein_percentage = py_round2 p0, carbs_percentage = py_round2 c0,
              fat_percentage = py_round2 f0\<rparr>"
    and zero: "num_val (py_add (py_add (PInt 0) (PInt 0)) (PInt 0)) \<le> 0 \<longrightarrow>
          p0 = PInt 0 \<and> c0 = PInt 0 \<and> f0 = PInt 0"
    by blast
  from zero gz a0 have two: "analyze_macros [] =
        Inr \<lparr>total_protein = PInt 0, total_carbs = PInt 0, total_fat = PInt 0,
             total_calories = PInt 0, protein_percentage = PInt 0, carbs_percentage = PInt 0,
             fat_percentage = PInt 0\<rparr>"
    by (simp add: num_defs)
  let ?ms = "[sample_meal (naive_datetime 2024 1 1 8 0 0) (PInt 0) (json_float (2675 / 1000))
           (PInt 0) (PInt 0)]"
  let ?tp = "py_add (PInt 0) (json_float (2675 / 1000))"
  let ?g = "py_add (py_add ?tp (PInt 0)) (PInt 0)"
  have r: "analyze_macros_sums ?ms = (?tp, PInt 0, PInt 0, PInt 0)"
    by (simp add: analyze_macros_sums_def analyze_macros_step_def sample_meal_def leaf_defs
        access_defs)
  have gr: "0 < num_val ?g"
    by (simp add: num_defs fl_eval)
  from analyze_macros_guarded [OF r] obtain p1 c1 f1 where
    a1: "analyze_macros ?ms =
         Inr \<lparr>total_protein = py_round2 ?tp, total_carbs = py_round2 (PInt 0),
              total_fat = py_round2 (PInt 0), total_calories = py_round2 (PInt 0),
              protein_percentage = py_round2 p1, carbs_percentage = py_round2 c1,
              fat_percentage = py_round2 f1\<rparr>"
    and pos1: "0 < num_val ?g \<longrightarrow>
          p1 = py_mul (true_div ?tp ?g) (PInt 100)
          \<and> c1 = py_mul (true_div (PInt 0) ?g) (PInt 100)
          \<and> f1 = py_mul (true_div (PInt 0) ?g) (PInt 100)"
    by blast
  from pos1 gr a1 have three: "analyze_macros ?ms =
        Inr \<lparr>total_protein = json_float (267 / 100), total_carbs = PInt 0, total_fat = PInt 0,
             total_calories = PInt 0, protein_percentage = json_float 100,
             carbs_percentage = json_float 0, fat_percentage = json_float 0\<rparr>"
    by (simp add: num_defs fl_eval)
  from one two three show ?thesis
    by blast
qed

subsection \<open>Daily averages of the export summary\<close>

lemma collect_meal_date:
  "\<forall>m\<in>set ms. consumedAt m \<noteq> None \<Longrightarrow> collect meal_date ms = Inr (meal_days ms)"
  by (induction ms) (auto simp: meal_date_def meal_days_def)

lemma collect_meal_date_fails:
  "\<exists>m\<in>set ms. consumedAt m = None \<Longrightarrow> collect meal_date ms = Inl ValueError"
proof (induction ms)
  case Nil
  then show ?case by simp
next
  case (Cons a ms)
  show ?case
  proof (cases "consumedAt a")
    case None
    then show ?thesis by (simp add: meal_date_def)
  next
    case (Some t)
    with Cons.prems have "\<exists>m\<in>set ms. consumedAt m = None"
      by auto
    from Cons.IH [OF this] Some show ?thesis
      by (simp add: meal_date_def)
  qed
qed

lemma foldl_exporter_add_to_totals:
  "calories (foldl exporter_add_to_totals t ms)
     = foldl py_add (calories t) (map meal_calories ms)"
  "protein (foldl exporter_add_to_totals t ms)
     = foldl py_add (protein t) (map meal_protein ms)"
  "carbs (foldl exporter_add_to_totals t ms)
     = foldl py_add (carbs t) (map meal_carbs ms)"
  "fat (foldl exporter_add_to_totals t ms)
     = foldl py_add (fat t) (map meal_fat ms)"
  "fiber (foldl exporter_add_to_totals t ms)
     = foldl py_add (fiber t) (map meal_fiber ms)"
  "sugar (foldl exporter_add_to_totals t ms)
     = foldl py_add (sugar t) (map meal_sugar ms)"
  by (induction ms arbitrary: t) (simp_all add: exporter_add_to_totals_def)

lemma exporter_sum_totals_sums:
  "exporter_sum_totals ms =
     \<lparr>calories = py_sum (map meal_calories ms), protein = py_sum (map meal_protein ms),
      carbs = py_sum (map meal_carbs ms), fat = py_sum (map meal_fat ms),
      fiber = py_sum (map meal_fiber ms), sugar = py_sum (map meal_sugar ms)\<rparr>"
  by (simp add: exporter_sum_totals_def foldl_exporter_add_to_totals py_sum_def)

lemma meal_days_nonempty:
  "ms \<noteq> [] \<Longrightarrow> \<forall>m\<in>set ms. consumedAt m \<noteq> None \<Longrightarrow> meal_days ms \<noteq> []"
  by (cases ms) (auto simp: meal_days_def)

lemmas exporter_eval_defs =
  calculate_daily_averages_def meal_date_def exporter_calculate_totals_def
  exporter_sum_totals_def exporter_add_to_totals_def map_totals_def
  daily_averages_spec_def meal_days_def

text \<open>
  C5 as stated fails: the averages divide the totals that \<open>_calculate_totals\<close> has already
  rounded to two decimal places. Two meals on two days with 500.254 kcal in all: the
  rounded total 500.25 gives 250.125 per day, which rounds to 250.12, while the
  full-precision quotient 250.127 rounds to 250.13.
\<close>

theorem daily_averages_round_twice:
  "calculate_daily_averages rounding_meals =
      Inr (Some \<lparr>calories = json_float (25012 / 100), protein = json_float 0,
                 carbs = json_float 0, fat = json_float 0, fiber = json_float 0,
                 sugar = json_float 0\<rparr>)
   \<and> daily_averages_spec rounding_meals =
      \<lparr>calories = json_float (25013 / 100), protein = json_float 0, carbs = json_float 0,
       fat = json_float 0, fiber = json_float 0, sugar = json_float 0\<rparr>
   \<and> calculate_daily_averages rounding_meals \<noteq> Inr (Some (daily_averages_spec rounding_meals))"
proof -
  have a: "calculate_daily_averages rounding_meals =
      Inr (Some \<lparr>calories = json_float (25012 / 100), protein = json_float 0,
                 carbs = json_float 0, fat = json_float 0, fiber = json_float 0,
                 sugar = json_float 0\<rparr>)"
    by (simp add: exporter_eval_defs rounding_meals_def fixture_defs leaf_defs access_defs
        num_defs fl_eval)
  have b: "daily_averages_spec rounding_meals =
      \<lparr>calories = json_float (25013 / 100), protein = json_float 0, carbs = json_float 0,
       fat = json_float 0, fiber = json_float 0, sugar = json_float 0\<rparr>"
    by (simp add: exporter_eval_defs rounding_meals_def fixture_defs leaf_defs access_defs
        num_defs fl_eval List.card_set)
  have c: "json_float (25012 / 100) \<noteq> json_float (25013 / 100)"
    by (simp add: num_defs fl_eval)
  from a b c show ?thesis
    by simp
qed

text \<open>
  C5, amended. For a list that is not empty and whose timestamps all parse, every entry of
  the export summary's \<open>daily_averages\<close> is the corresponding nutrition sum (calories,
  protein, carbs, fat, fiber, sugar, accumulated in list order at full double precision),
  first rounded to two decimal places as \<open>_calculate_totals\<close> returns it, then divided by
  the number of distinct calendar dates among the \<open>consumedAt\<close> values, then rounded to
  two decimal places again. For the empty list \<open>daily_averages\<close> is the empty dictionary,
  and a timestamp that does not parse ends the computation with \<open>ValueError\<close>.
\<close>

theorem daily_averages_divide_rounded_totals:
  "(ms = [] \<longrightarrow> calculate_daily_averages ms = Inr None)
   \<and> ((\<exists>m\<in>set ms. consumedAt m = None) \<longrightarrow> calculate_daily_averages ms = Inl ValueError)
   \<and> (ms \<noteq> [] \<and> (\<forall>m\<in>set ms. consumedAt m \<noteq> None) \<longrightarrow>
        calculate_daily_averages ms =
           Inr (Some (map_totals
                        (\<lambda>v. py_round2
                               (true_div (py_round2 v) (PInt (int (card (set (meal_days ms)))))))
                        (exporter_sum_totals ms)))
        \<and> 0 < card (set (meal_days ms)))
   \<and> exporter_sum_totals ms =
        \<lparr>calories = py_sum (map meal_calories ms), protein = py_sum (map meal_protein ms),
         carbs = py_sum (map meal_carbs ms), fat = py_sum (map meal_fat ms),
         fiber = py_sum (map meal_fiber ms), sugar = py_sum (map meal_sugar ms)\<rparr>"
proof -
  have empty: "ms = [] \<longrightarrow> calculate_daily_averages ms = Inr None"
    by (simp add: calculate_daily_averages_def)
  have bad: "calculate_daily_averages ms = Inl ValueError"
    if "\<exists>m\<in>set ms. consumedAt m = None"
    using that collect_meal_date_fails [OF that]
    by (auto simp: calculate_daily_averages_def)
  have good: "calculate_daily_averages ms =
           Inr (Some (map_totals
                        (\<lambda>v. py_round2
                               (true_div (py_round2 v) (PInt (int (card (set (meal_days ms)))))))
                        (exporter_sum_totals ms)))
        \<and> 0 < card (set (meal_days ms))"
    if ne0: "ms \<noteq> []" and parse: "\<forall>m\<in>set ms. consumedAt m \<noteq> None"
  proof -
    have ne: "meal_days ms \<noteq> []"
      using meal_days_nonempty [OF ne0 parse] .
    then have pos: "0 < card (set (meal_days ms))"
      by (simp add: card_gt_0_iff)
    have len: "length (remdups (meal_days ms)) = card (set (meal_days ms))"
      by (simp add: length_remdups_card_conv)
    show ?thesis
      using ne0 pos ne
      by (simp add: calculate_daily_averages_def collect_meal_date [OF parse] len Let_def
          exporter_calculate_totals_def map_totals_def del: true_div.simps)
  qed
  from empty bad good exporter_sum_totals_sums show ?thesis
    by blast
qed

theorem daily_averages_divide_rounded_totals_witness:
  "calculate_daily_averages two_day_meals =
      Inr (Some \<lparr>calories = json_float 575, protein = json_float (65 / 2),
                 carbs = json_float 55, fat = json_float 20, fiber = json_float 0,
                 sugar = json_float 0\<rparr>)
   \<and> card (set (meal_days two_day_meals)) = 2
   \<and> calories (exporter_sum_totals two_day_meals) = PInt 1150
   \<and> (\<exists>r. calculate_daily_averages cent_meals = Inr (Some r)
        \<and> calories r = json_float (1 / 100))
   \<and> calculate_daily_averages [] = Inr None
   \<and> calculate_daily_averages [bare_meal None] = Inl ValueError"
proof -
  have h1: "two_day_meals \<noteq> []"
    by (simp add: two_day_meals_def)
  have h2: "\<forall>m\<in>set two_day_meals. consumedAt m \<noteq> None"
    by (simp add: two_day_meals_def sample_meal_def bare_meal_def)
  have h3: "\<exists>m\<in>set [bare_meal None]. consumedAt m = None"
    by (simp add: bare_meal_def)
  have d: "meal_days two_day_meals = [738886, 738887, 738886]"
    by (simp add: meal_days_def fixture_defs)
  have s: "exporter_sum_totals two_day_meals =
      \<lparr>calories = PInt 1150, protein = PInt 65, carbs = PInt 110, fat = PInt 40,
       fiber = PInt 0, sugar = PInt 0\<rparr>"
    by (simp add: exporter_sum_totals_def exporter_add_to_totals_def fixture_defs leaf_defs
        access_defs)
  have c: "card (set (meal_days two_day_meals)) = 2"
    unfolding d List.card_set by simp
  from daily_averages_divide_rounded_totals [of two_day_meals] h1 h2
  have "calculate_daily_averages two_day_meals =
      Inr (Some (map_totals
                   (\<lambda>v. py_round2
                          (true_div (py_round2 v)
                             (PInt (int (card (set (meal_days two_day_meals)))))))
                   (exporter_sum_totals two_day_meals)))"
    by blast
  then have one: "calculate_daily_averages two_day_meals =
      Inr (Some \<lparr>calories = json_float 575, protein = json_float (65 / 2),
                 carbs = json_float 55, fat = json_float 20, fiber = json_float 0,
                 sugar = json_float 0\<rparr>)"
    by (simp add: c s map_totals_def num_defs fl_eval)
  have k1: "cent_meals \<noteq> []"
    by (simp add: cent_meals_def)
  have k2: "\<forall>m\<in>set cent_meals. consumedAt m \<noteq> None"
    by (simp add: cent_meals_def sample_meal_def bare_meal_def)
  have kd: "meal_days cent_meals = [738886, 738887]"
    by (simp add: meal_days_def cent_meals_def sample_meal_def bare_meal_def dt_defs)
  have kc: "card (set (meal_days cent_meals)) = 2"
    unfolding kd List.card_set by simp
  have ks: "calories (exporter_sum_totals cent_meals) = json_float (3 / 100)"
    by (simp add: exporter_sum_totals_def exporter_add_to_totals_def cent_meals_def
        sample_meal_def bare_meal_def leaf_defs access_defs num_defs fl_eval)
  have kr: "py_round2 (true_div (py_round2 (json_float (3 / 100))) (PInt 2))
      = json_float (1 / 100)"
    by (simp add: num_defs fl_eval)
  from daily_averages_divide_rounded_totals [of cent_meals] k1 k2
  have "calculate_daily_averages cent_meals =
      Inr (Some (map_totals
                   (\<lambda>v. py_round2
                          (true_div (py_round2 v)
                             (PInt (int (card (set (meal_days cent_meals)))))))
                   (exporter_sum_totals cent_meals)))"
    by blast
  then have small: "\<exists>r. calculate_daily_averages cent_meals = Inr (Some r)
        \<and> calories r = json_float (1 / 100)"
    by (simp add: kc ks kr map_totals_def del: true_div.simps)
  from daily_averages_divide_rounded_totals [of "[]"]
  have two: "calculate_daily_averages [] = Inr None"
    by simp
  from daily_averages_divide_rounded_totals [of "[bare_meal None]"] h3
  have three: "calculate_daily_averages [bare_meal None] = Inl ValueError"
    by blast
  from one small two three c s show ?thesis
    by simp
qed

subsection \<open>Top foods\<close>

lemma food_count_of_all_items: "food_count_of ms = foldl count_item [] (all_items ms)"
proof -
  have "foldl (\<lambda>fc m. foldl count_item fc (meal_composition m)) fc ms
        = foldl count_item fc (concat (map meal_composition ms))" for fc
    by (induction ms arbitrary: fc) simp_all
  then show ?thesis
    by (simp add: food_count_of_def all_items_def)
qed

lemma first_index_append_old:
  "x \<in> set xs \<Longrightarrow> first_index x (xs @ ys) = first_index x xs"
  by (simp add: first_index_def takeWhile_append1)

lemma first_index_less: "x \<in> set xs \<Longrightarrow> first_index x xs < length xs"
  unfolding first_index_def by (induction xs) auto

lemma first_index_append_new:
  "x \<notin> set xs \<Longrightarrow> first_index x (xs @ [x]) = length xs"
  unfolding first_index_def by (induction xs) auto

lemma agg_keys:
  assumes step: "\<And>fc i. step fc i = dict_update (key i) dflt (upd i) fc"
  shows "set (map fst (foldl step [] items)) = set (map key items)
     \<and> distinct (map fst (foldl step [] items))
     \<and> sorted_wrt (\<lambda>a b. first_index a (map key items) < first_index b (map key items))
          (map fst (foldl step [] items))"
proof (induction items rule: rev_induct)
  case Nil
  then show ?case by simp
next
  case (snoc i items)
  let ?ks = "map fst (foldl step [] items)"
  let ?ls = "map key items"
  from snoc have s: "set ?ks = set ?ls" and d: "distinct ?ks"
    and o: "sorted_wrt (\<lambda>a b. first_index a ?ls < first_index b ?ls) ?ks"
    by blast+
  have ks': "map fst (foldl step [] (items @ [i]))
      = (if key i \<in> set ?ks then ?ks else ?ks @ [key i])"
    by (simp add: step map_fst_dict_update)
  have o': "sorted_wrt (\<lambda>a b. first_index a (?ls @ [key i]) < first_index b (?ls @ [key i])) ?ks"
    using o s by (auto intro: sorted_wrt_mono_rel [rotated] simp: first_index_append_old)
  show ?case
  proof (cases "key i \<in> set ?ks")
    case True
    with s d o' ks' show ?thesis by auto
  next
    case False
    then have new: "key i \<notin> set ?ls" using s by simp
    have "\<forall>a\<in>set ?ks. first_index a (?ls @ [key i]) < first_index (key i) (?ls @ [key i])"
      using s new by (auto simp: first_index_append_old first_index_append_new
           dest: first_index_less [of _ ?ls] simp del: set_map)
    with False s d o' ks' show ?thesis
      by (auto simp: sorted_wrt_append)
  qed
qed

lemma dict_update_entries:
  assumes "(l, s) \<in> set (dict_update k d f kvs)" and "distinct (map fst kvs)"
  shows "(l \<noteq> k \<and> (l, s) \<in> set kvs)
       \<or> (l = k \<and> (\<exists>v. (k, v) \<in> set kvs \<and> s = f v))
       \<or> (l = k \<and> k \<notin> fst ` set kvs \<and> s = f d)"
  using assms
proof (induction kvs)
  case Nil
  then show ?case by simp
next
  case (Cons kv kvs)
  obtain k' v' where kv: "kv = (k', v')"
    by (cases kv)
  show ?case
  proof (cases "k' = k")
    case True
    with Cons.prems kv have "(l, s) = (k, f v') \<or> (l, s) \<in> set kvs" and "k \<notin> fst ` set kvs"
      by auto
    with True kv show ?thesis
      by force
  next
    case False
    with Cons.prems kv have "(l, s) = (k', v') \<or> (l, s) \<in> set (dict_update k d f kvs)"
      and "distinct (map fst kvs)"
      by auto
    with Cons.IH False kv show ?thesis
      by force
  qed
qed

lemma agg_entry_sum:
  fixes g :: "'v \<Rightarrow> 'n :: comm_monoid_add"
  assumes step: "\<And>fc i. step fc i = dict_update (key i) dflt (upd i) fc"
    and add: "\<And>i d. g (upd i d) = g d + h i" and zero: "g dflt = 0"
  shows "\<forall>x\<in>set (foldl step [] items).
           g (snd x) = sum_list (map h (filter (\<lambda>i. key i = fst x) items))"
proof (induction items rule: rev_induct)
  case Nil
  then show ?case by simp
next
  case (snoc i items)
  let ?fc = "foldl step [] items"
  have keys: "fst ` set ?fc = key ` set items" and dist: "distinct (map fst ?fc)"
    using agg_keys [OF step, where items = items] by simp_all
  show ?case
  proof
    fix x assume "x \<in> set (foldl step [] (items @ [i]))"
    then have "(fst x, snd x) \<in> set (dict_update (key i) dflt (upd i) ?fc)"
      by (simp add: step)
    from dict_update_entries [OF this dist]
    consider (other) "fst x \<noteq> key i" "(fst x, snd x) \<in> set ?fc"
      | (old) v where "fst x = key i" "(key i, v) \<in> set ?fc" "snd x = upd i v"
      | (new) "fst x = key i" "key i \<notin> fst ` set ?fc" "snd x = upd i dflt"
      by blast
    then show "g (snd x) = sum_list (map h (filter (\<lambda>j. key j = fst x) (items @ [i])))"
    proof cases
      case other
      with snoc show ?thesis by force
    next
      case old
      with snoc have "g v = sum_list (map h (filter (\<lambda>j. key j = key i) items))"
        by force
      with old show ?thesis by (simp add: add)
    next
      case new
      then have "key i \<notin> key ` set items"
        using keys by simp
      then have "key j \<noteq> key i" if "j \<in> set items" for j
        using that by (metis imageI)
      then have "filter (\<lambda>j. key j = key i) items = []"
        by (simp add: filter_empty_conv)
      with new show ?thesis by (simp add: add zero)
    qed
  qed
qed

lemma agg_entry_fold:
  assumes step: "\<And>fc i. step fc i = dict_update (key i) dflt (upd i) fc"
    and add: "\<And>i d. g (upd i d) = opr (g d) (h i)" and zero: "g dflt = z"
  shows "\<forall>x\<in>set (foldl step [] items).
           g (snd x) = foldl opr z (map h (filter (\<lambda>i. key i = fst x) items))"
proof (induction items rule: rev_induct)
  case Nil
  then show ?case by simp
next
  case (snoc i items)
  let ?fc = "foldl step [] items"
  have keys: "fst ` set ?fc = key ` set items" and dist: "distinct (map fst ?fc)"
    using agg_keys [OF step, where items = items] by simp_all
  show ?case
  proof
    fix x assume "x \<in> set (foldl step [] (items @ [i]))"
    then have "(fst x, snd x) \<in> set (dict_update (key i) dflt (upd i) ?fc)"
      by (simp add: step)
    from dict_update_entries [OF this dist]
    consider (other) "fst x \<noteq> key i" "(fst x, snd x) \<in> set ?fc"
      | (old) v where "fst x = key i" "(key i, v) \<in> set ?fc" "snd x = upd i v"
      | (new) "fst x = key i" "key i \<notin> fst ` set ?fc" "snd x = upd i dflt"
      by blast
    then show "g (snd x) = foldl opr z (map h (filter (\<lambda>j. key j = fst x) (items @ [i])))"
    proof cases
      case other
      with snoc show ?thesis by force
    next
      case old
      with snoc have "g v = foldl opr z (map h (filter (\<lambda>j. key j = key i) items))"
        by force
      with old show ?thesis by (simp add: add)
    next
      case new
      then have "key i \<notin> key ` set items"
        using keys by simp
      then have "key j \<noteq> key i" if "j \<in> set items" for j
        using that by (metis imageI)
      then have "filter (\<lambda>j. key j = key i) items = []"
        by (simp add: filter_empty_conv)
      with new show ?thesis by (simp add: add zero)
    qed
  qed
qed

lemma agg_total_sum:
  fixes g :: "'v \<Rightarrow> 'n :: comm_monoid_add"
  assumes step: "\<And>fc i. step fc i = dict_update (key i) dflt (upd i) fc"
    and add: "\<And>i d. g (upd i d) = g d + h i" and zero: "g dflt = 0"
  shows "sum_list (map (\<lambda>x. g (snd x)) (foldl step [] items)) = sum_list (map h items)"
  by (induction items rule: rev_induct) (simp_all add: step sum_dict_update [OF add zero])

lemma sum_list_insort_key:
  fixes f :: "'a \<Rightarrow> 'n :: comm_monoid_add"
  shows "sum_list (map f (insort_key k x xs)) = f x + sum_list (map f xs)"
  by (induction xs) (simp_all add: add.left_commute)

lemma sum_list_sort_key:
  fixes f :: "'a \<Rightarrow> 'n :: comm_monoid_add"
  shows "sum_list (map f (sort_key k xs)) = sum_list (map f xs)"
  by (induction xs) (simp_all add: sum_list_insort_key)

lemma sorted_wrt_ties:
  fixes f :: "'a \<Rightarrow> 'b :: linorder"
  assumes "sorted_wrt (\<lambda>x y. f x \<le> f y) xs"
    and "\<And>k. sorted_wrt Q (filter (\<lambda>x. f x = k) xs)"
  shows "sorted_wrt (\<lambda>x y. f x < f y \<or> (f x = f y \<and> Q x y)) xs"
  using assms
proof (induction xs)
  case Nil
  then show ?case by simp
next
  case (Cons x xs)
  have tail: "sorted_wrt Q (filter (\<lambda>y. f y = k) xs)" for k
    using Cons.prems(2) [of k] by (cases "f x = k") simp_all
  have "sorted_wrt (\<lambda>x y. f x < f y \<or> (f x = f y \<and> Q x y)) xs"
    using Cons.IH Cons.prems(1) tail by simp
  moreover have "f x < f y \<or> (f x = f y \<and> Q x y)" if "y \<in> set xs" for y
  proof (cases "f x = f y")
    case True
    from Cons.prems(2) [of "f x"] have "\<forall>z\<in>set (filter (\<lambda>z. f z = f x) xs). Q x z"
      by simp
    with that True show ?thesis by simp
  next
    case False
    with Cons.prems(1) that show ?thesis by force
  qed
  ultimately show ?case by simp
qed

lemma distinct_map_insort_key:
  "distinct (map g (insort_key f x xs)) = (g x \<notin> g ` set xs \<and> distinct (map g xs))"
  by (induction xs) (auto simp: set_insort_key)

lemma distinct_map_sort_key: "distinct (map g (sort_key f xs)) = distinct (map g xs)"
  by (induction xs) (simp_all add: distinct_map_insort_key)

lemma count_item_step:
  "count_item fc i =
     dict_update (item_label i) \<lparr>count = 0, food_total_calories = PInt 0, food_total_protein = PInt 0\<rparr>
       (\<lambda>d. d\<lparr>count := count d + 1,
               food_total_calories := py_add (food_total_calories d) (item_calories i),
               food_total_protein := py_add (food_total_protein d) (item_protein i)\<rparr>) fc"
  by (simp add: count_item_def)

lemma food_count_of_entries:
  assumes "x \<in> set (food_count_of ms)"
  shows "count (snd x) = int (length (labelled (fst x) (all_items ms)))"
    and "food_total_calories (snd x)
           = py_sum (map item_calories (labelled (fst x) (all_items ms)))"
    and "food_total_protein (snd x)
           = py_sum (map item_protein (labelled (fst x) (all_items ms)))"
proof -
  let ?Z = "\<lparr>count = 0, food_total_calories = PInt 0, food_total_protein = PInt 0\<rparr>"
  let ?U = "\<lambda>i d. d\<lparr>count := count d + 1,
               food_total_calories := py_add (food_total_calories d) (item_calories i),
               food_total_protein := py_add (food_total_protein d) (item_protein i)\<rparr>"
  note per_label = agg_entry_sum
    [where step = count_item and key = item_label and dflt = ?Z and upd = ?U
       and items = "all_items ms", OF count_item_step, rule_format]
  note per_label_fold = agg_entry_fold
    [where step = count_item and key = item_label and dflt = ?Z and upd = ?U
       and items = "all_items ms" and opr = py_add and z = "PInt 0",
     OF count_item_step, rule_format]
  from assms have x: "x \<in> set (foldl count_item [] (all_items ms))"
    by (simp add: food_count_of_all_items)
  have "count (snd x)
      = sum_list (map (\<lambda>i. 1) (filter (\<lambda>i. item_label i = fst x) (all_items ms)))"
    by (rule per_label [where g = count and h = "\<lambda>i. 1", OF _ _ x]) simp_all
  then show "count (snd x) = int (length (labelled (fst x) (all_items ms)))"
    by (simp add: sum_list_triv labelled_def)
  have "food_total_calories (snd x)
      = foldl py_add (PInt 0)
          (map item_calories (filter (\<lambda>i. item_label i = fst x) (all_items ms)))"
    by (rule per_label_fold [where g = food_total_calories and h = item_calories, OF _ _ x])
      simp_all
  then show "food_total_calories (snd x)
      = py_sum (map item_calories (labelled (fst x) (all_items ms)))"
    by (simp add: py_sum_def labelled_def)
  have "food_total_protein (snd x)
      = foldl py_add (PInt 0)
          (map item_protein (filter (\<lambda>i. item_label i = fst x) (all_items ms)))"
    by (rule per_label_fold [where g = food_total_protein and h = item_protein, OF _ _ x])
      simp_all
  then show "food_total_protein (snd x)
      = py_sum (map item_protein (labelled (fst x) (all_items ms)))"
    by (simp add: py_sum_def labelled_def)
qed

lemma food_count_of_total:
  "sum_list (map (\<lambda>x. count (snd x)) (food_count_of ms)) = int (length (all_items ms))"
proof -
  let ?Z = "\<lparr>count = 0, food_total_calories = PInt 0, food_total_protein = PInt 0\<rparr>"
  let ?U = "\<lambda>i d. d\<lparr>count := count d + 1,
               food_total_calories := py_add (food_total_calories d) (item_calories i),
               food_total_protein := py_add (food_total_protein d) (item_protein i)\<rparr>"
  have "sum_list (map (\<lambda>x. count (snd x)) (foldl count_item [] (all_items ms)))
      = sum_list (map (\<lambda>i. 1) (all_items ms))"
    by (rule agg_total_sum
        [where step = count_item and key = item_label and dflt = ?Z and upd = ?U
           and g = count and h = "\<lambda>i. 1", OF count_item_step]) simp_all
  then show ?thesis
    by (simp add: food_count_of_all_items sum_list_triv)
qed

lemma food_count_of_keys:
  "distinct (map fst (food_count_of ms))"
  "set (map fst (food_count_of ms)) = set (map item_label (all_items ms))"
  "sorted_wrt (\<lambda>x y. first_index (fst x) (map item_label (all_items ms))
                       < first_index (fst y) (map item_label (all_items ms)))
     (food_count_of ms)"
proof -
  let ?Z = "\<lparr>count = 0, food_total_calories = PInt 0, food_total_protein = PInt 0\<rparr>"
  let ?U = "\<lambda>i d. d\<lparr>count := count d + 1,
               food_total_calories := py_add (food_total_calories d) (item_calories i),
               food_total_protein := py_add (food_total_protein d) (item_protein i)\<rparr>"
  note keys = agg_keys
    [where step = count_item and key = item_label and dflt = ?Z and upd = ?U
       and items = "all_items ms", OF count_item_step]
  from keys show "distinct (map fst (food_count_of ms))"
    by (simp add: food_count_of_all_items)
  from keys show "set (map fst (food_count_of ms)) = set (map item_label (all_items ms))"
    by (simp add: food_count_of_all_items)
  from keys show "sorted_wrt (\<lambda>x y. first_index (fst x) (map item_label (all_items ms))
                       < first_index (fst y) (map item_label (all_items ms)))
     (food_count_of ms)"
    by (simp add: food_count_of_all_items sorted_wrt_map)
qed

lemma sorted_foods_order:
  "sorted_wrt
     (\<lambda>x y. count (snd y) < count (snd x)
        \<or> (count (snd x) = count (snd y)
            \<and> first_index (fst x) (map item_label (all_items ms))
                < first_index (fst y) (map item_label (all_items ms))))
     (sorted_foods ms)"
proof -
  let ?f = "\<lambda>x :: string \<times> food_stats. - count (snd x)"
  let ?Q = "\<lambda>x y :: string \<times> food_stats. first_index (fst x) (map item_label (all_items ms))
                < first_index (fst y) (map item_label (all_items ms))"
  have "sorted (map ?f (sorted_foods ms))"
    by (simp add: sorted_foods_def)
  then have a: "sorted_wrt (\<lambda>x y. ?f x \<le> ?f y) (sorted_foods ms)"
    by (simp add: sorted_map)
  have b: "sorted_wrt ?Q (filter (\<lambda>x. ?f x = k) (sorted_foods ms))" for k
    unfolding sorted_foods_def sort_key_stable
    by (rule sorted_wrt_filter) (rule food_count_of_keys(3))
  from sorted_wrt_ties [of ?f "sorted_foods ms" ?Q, OF a b] show ?thesis
    by simp
qed

lemma dict_update_sim:
  assumes "map (\<lambda>x. (fst x, p (snd x))) kvs = map (\<lambda>x. (fst x, q (snd x))) kvs'"
    and "\<And>v v'. p v = q v' \<Longrightarrow> p (f v) = q (f' v')" and "p (f d) = q (f' d')"
  shows "map (\<lambda>x. (fst x, p (snd x))) (dict_update k d f kvs)
       = map (\<lambda>x. (fst x, q (snd x))) (dict_update k d' f' kvs')"
  using assms(1)
proof (induction kvs arbitrary: kvs')
  case Nil
  then show ?case by (simp add: assms(3))
next
  case (Cons kv kvs)
  then obtain kv' rest where kvs': "kvs' = kv' # rest"
    by (cases kvs') auto
  with Cons.prems have hd: "fst kv = fst kv'" "p (snd kv) = q (snd kv')"
    and tl: "map (\<lambda>x. (fst x, p (snd x))) kvs = map (\<lambda>x. (fst x, q (snd x))) rest"
    by auto
  show ?case
  proof (cases "fst kv = k")
    case True
    with hd tl kvs' assms(2) [OF hd(2)] show ?thesis
      by (cases kv; cases kv') auto
  next
    case False
    with hd kvs' Cons.IH [OF tl] show ?thesis
      by (cases kv; cases kv') auto
  qed
qed

lemma count_item_sim:
  assumes "map report_view rfc = map analyzer_view fc"
  shows "map report_view (report_count_item rfc i) = map analyzer_view (count_item fc i)"
  using dict_update_sim
    [where p = "\<lambda>s. (r_count s, r_total_calories s)"
       and q = "\<lambda>s. (count s, food_total_calories s)"
       and kvs = rfc and kvs' = fc and k = "item_label i"
       and d = "\<lparr>r_count = 0, r_total_calories = PInt 0\<rparr>"
       and d' = "\<lparr>count = 0, food_total_calories = PInt 0, food_total_protein = PInt 0\<rparr>"
       and f = "\<lambda>d. d\<lparr>r_count := r_count d + 1,
               r_total_calories := py_add (r_total_calories d) (item_calories i)\<rparr>"
       and f' = "\<lambda>d. d\<lparr>count := count d + 1,
               food_total_calories := py_add (food_total_calories d) (item_calories i),
               food_total_protein := py_add (food_total_protein d) (item_protein i)\<rparr>"]
    assms
  by (simp add: report_view_def analyzer_view_def report_count_item_def count_item_def
      item_label_def item_calories_def)

lemma foldl_count_item_sim:
  "map report_view rfc = map analyzer_view fc \<Longrightarrow>
   map report_view (foldl report_count_item rfc items)
     = map analyzer_view (foldl count_item fc items)"
  by (induction items arbitrary: rfc fc) (simp_all add: count_item_sim)

lemma report_food_count_sim:
  "map report_view (report_food_count ms) = map analyzer_view (food_count_of ms)"
proof -
  have "map report_view rfc = map analyzer_view fc \<Longrightarrow>
        map report_view
          (foldl (\<lambda>food_count m. foldl report_count_item food_count (meal_composition m)) rfc ms)
        = map analyzer_view
          (foldl (\<lambda>food_count m. foldl count_item food_count (meal_composition m)) fc ms)"
    for rfc fc
    by (induction ms arbitrary: rfc fc) (simp_all add: foldl_count_item_sim)
  from this [of "[]" "[]"] show ?thesis
    by (simp add: report_food_count_def food_count_of_def)
qed

lemma map_insort_key:
  "map g (insort_key (\<lambda>x. h (g x)) x xs) = insort_key h (g x) (map g xs)"
  by (induction xs) simp_all

lemma map_sort_key: "map g (sort_key (\<lambda>x. h (g x)) xs) = sort_key h (map g xs)"
  by (induction xs) (simp_all add: map_insort_key)

lemma report_sorted_sim:
  "map report_view (sort_key (\<lambda>x. - r_count (snd x)) (report_food_count ms))
     = map analyzer_view (sorted_foods ms)"
proof -
  have a: "map report_view (sort_key (\<lambda>x. - r_count (snd x)) (report_food_count ms))
      = sort_key (\<lambda>t. - fst (snd t)) (map report_view (report_food_count ms))"
    using map_sort_key [where g = report_view and h = "\<lambda>t. - fst (snd t)"]
    by (simp add: report_view_def)
  have b: "map analyzer_view (sort_key (\<lambda>x. - count (snd x)) (food_count_of ms))
      = sort_key (\<lambda>t. - fst (snd t)) (map analyzer_view (food_count_of ms))"
    using map_sort_key [where g = analyzer_view and h = "\<lambda>t. - fst (snd t)"]
    by (simp add: analyzer_view_def)
  from a b show ?thesis
    by (simp only: report_food_count_sim sorted_foods_def)
qed

lemma py_slice_to_map: "py_slice_to limit (map f xs) = map f (py_slice_to limit xs)"
  by (simp add: py_slice_to_def take_map)

lemma report_get_top_foods_view:
  "map (\<lambda>e. (r_food e, r_top_count e, r_avg_calories e)) (report_get_top_foods ms limit)
    = map (\<lambda>x. (fst x, count (snd x),
                 if 0 < count (snd x)
                 then true_div (food_total_calories (snd x)) (PInt (count (snd x)))
                 else PInt 0))
        (py_slice_to limit (sorted_foods ms))"
proof -
  let ?v = "\<lambda>t :: string \<times> int \<times> number.
      (fst t, fst (snd t),
       if 0 < fst (snd t) then true_div (snd (snd t)) (PInt (fst (snd t))) else PInt 0)"
  let ?RS = "sort_key (\<lambda>x. - r_count (snd x)) (report_food_count ms)"
  have "map (\<lambda>e. (r_food e, r_top_count e, r_avg_calories e)) (report_get_top_foods ms limit)
      = map ?v (py_slice_to limit (map report_view ?RS))"
    by (simp add: report_get_top_foods_def py_slice_to_map report_view_def case_prod_unfold
        del: true_div.simps)
  also have "\<dots> = map ?v (py_slice_to limit (map analyzer_view (sorted_foods ms)))"
    by (simp only: report_sorted_sim)
  also have "\<dots> = map (\<lambda>x. (fst x, count (snd x),
                 if 0 < count (snd x)
                 then true_div (food_total_calories (snd x)) (PInt (count (snd x)))
                 else PInt 0))
        (py_slice_to limit (sorted_foods ms))"
    by (simp add: py_slice_to_map analyzer_view_def del: true_div.simps)
  finally show ?thesis .
qed

text \<open>
  C8 as stated fails: \<open>get_top_foods\<close> returns each average passed through
  \<open>round(_, 2)\<close>, not the quotient itself. Rice occurs three times with 400 kcal in all:
  the entry says 133.33, the quotient \<open>400 / 3\<close> is the double 133.33333333333334.
\<close>

theorem top_foods_average_rounded:
  "get_top_foods food_meals 1 =
      Inr [\<lparr>food = ''rice'', top_count = 3, avg_calories = json_float (13333 / 100),
            avg_protein = json_float (267 / 100)\<rparr>]
   \<and> py_sum (map item_calories (labelled ''rice'' (all_items food_meals))) = PInt 400
   \<and> true_div (PInt 400) (PInt 3) = PFloat (4691249611844267 / 35184372088832)
   \<and> num_val (json_float (13333 / 100)) \<noteq> num_val (true_div (PInt 400) (PInt 3))
   \<and> num_val (json_float (13333 / 100)) \<noteq> 400 / 3"
proof -
  have a: "get_top_foods food_meals 1 =
      Inr [\<lparr>food = ''rice'', top_count = 3, avg_calories = json_float (13333 / 100),
            avg_protein = json_float (267 / 100)\<rparr>]"
    by (simp add: top_foods_eval_defs food_fixture_defs item_defs access_defs)
  have b: "py_sum (map item_calories (labelled ''rice'' (all_items food_meals))) = PInt 400"
    by (simp add: py_sum_def labelled_def all_items_def food_fixture_defs item_defs
        access_defs)
  have c: "true_div (PInt 400) (PInt 3) = PFloat (4691249611844267 / 35184372088832)"
    by (simp add: fl_eval)
  have d: "num_val (json_float (13333 / 100)) \<noteq> num_val (true_div (PInt 400) (PInt 3))"
    by (simp add: num_defs fl_eval)
  have e: "num_val (json_float (13333 / 100)) \<noteq> 400 / 3"
    by (simp add: num_defs fl_eval)
  from a b c d e show ?thesis
    by blast
qed

text \<open>
  C8, amended. \<open>get_top_foods\<close> returns the slice \<open>[:limit]\<close> of \<open>sorted_foods\<close>, at most
  \<open>limit\<close> entries when the limit is not negative; \<open>sorted_foods\<close> holds every aggregated
  label once. The counts of all of \<open>sorted_foods\<close> (the returned entries and the tail cut
  off) sum to the number of composition items of all records. \<open>sorted_foods\<close> is in
  descending order of count, and labels of equal count stand in the order in which they
  were first met. Each returned entry's count is the number of items bearing its label, and
  its \<open>avg_calories\<close> and \<open>avg_protein\<close> are that label's calorie and protein sums
  (accumulated in reading order) divided by its count and then rounded to two decimal
  places. The report's \<open>_get_top_foods\<close> returns the same labels and counts in the same
  order, with \<open>avg_calories\<close> the unrounded double quotient and no protein average.
\<close>

theorem top_foods_ranking:
  "\<exists>r. get_top_foods ms limit = Inr r
     \<and> map (\<lambda>e. (food e, top_count e)) r
         = py_slice_to limit (map (\<lambda>x. (fst x, count (snd x))) (sorted_foods ms))
     \<and> sum_list (map (\<lambda>x. count (snd x)) (sorted_foods ms)) = int (length (all_items ms))
     \<and> (0 \<le> limit \<longrightarrow> length r \<le> nat limit)
     \<and> distinct (map fst (sorted_foods ms))
     \<and> sorted_wrt
         (\<lambda>x y. count (snd y) < count (snd x)
            \<or> (count (snd x) = count (snd y)
                \<and> first_index (fst x) (map item_label (all_items ms))
                    < first_index (fst y) (map item_label (all_items ms))))
         (sorted_foods ms)
     \<and> (\<forall>e\<in>set r.
           1 \<le> top_count e
           \<and> top_count e = int (length (labelled (food e) (all_items ms)))
           \<and> avg_calories e
               = py_round2 (true_div
                              (py_sum (map item_calories (labelled (food e) (all_items ms))))
                              (PInt (top_count e)))
           \<and> avg_protein e
               = py_round2 (true_div
                              (py_sum (map item_protein (labelled (food e) (all_items ms))))
                              (PInt (top_count e))))
     \<and> map (\<lambda>e. (r_food e, r_top_count e)) (report_get_top_foods ms limit)
         = map (\<lambda>e. (food e, top_count e)) r
     \<and> (\<forall>e\<in>set (report_get_top_foods ms limit).
           r_avg_calories e
             = true_div (py_sum (map item_calories (labelled (r_food e) (all_items ms))))
                 (PInt (r_top_count e)))"
proof -
  let ?g = "\<lambda>x :: string \<times> food_stats.
    \<lparr>food = fst x, top_count = count (snd x),
     avg_calories = py_round2 (true_div (food_total_calories (snd x)) (PInt (count (snd x)))),
     avg_protein = py_round2 (true_div (food_total_protein (snd x)) (PInt (count (snd x))))\<rparr>"
  let ?S = "py_slice_to limit (sorted_foods ms)"
  let ?W = "\<lambda>x :: string \<times> food_stats. (fst x, count (snd x),
                 if 0 < count (snd x)
                 then true_div (food_total_calories (snd x)) (PInt (count (snd x)))
                 else PInt 0)"
  let ?RR = "report_get_top_foods ms limit"
  have "\<forall>x\<in>set ?S. top_food_entry x = Inr (?g x)"
    using sliced_foods_positive [of limit ms] by (simp add: top_food_entry_positive)
  from collect_map [OF this] have r: "get_top_foods ms limit = Inr (map ?g ?S)"
    by (simp add: get_top_foods_def)
  have pre: "map (\<lambda>e. (food e, top_count e)) (map ?g ?S)
         = py_slice_to limit (map (\<lambda>x. (fst x, count (snd x))) (sorted_foods ms))"
    by (simp add: py_slice_to_map)
  have tot: "sum_list (map (\<lambda>x. count (snd x)) (sorted_foods ms)) = int (length (all_items ms))"
    by (simp add: sorted_foods_def sum_list_sort_key food_count_of_total)
  have len: "0 \<le> limit \<longrightarrow> length (map ?g ?S) \<le> nat limit"
    by (simp add: py_slice_to_def)
  have dis: "distinct (map fst (sorted_foods ms))"
    by (simp add: sorted_foods_def distinct_map_sort_key food_count_of_keys(1))
  have in_fc: "x \<in> set (food_count_of ms)" if "x \<in> set ?S" for x
    using that set_py_slice_to [of limit "sorted_foods ms"] by (auto simp: sorted_foods_def)
  have ent: "1 \<le> top_count e
           \<and> top_count e = int (length (labelled (food e) (all_items ms)))
           \<and> avg_calories e
               = py_round2 (true_div
                              (py_sum (map item_calories (labelled (food e) (all_items ms))))
                              (PInt (top_count e)))
           \<and> avg_protein e
               = py_round2 (true_div
                              (py_sum (map item_protein (labelled (food e) (all_items ms))))
                              (PInt (top_count e)))"
    if "e \<in> set (map ?g ?S)" for e
  proof -
    from that obtain x where x: "x \<in> set ?S" and e: "e = ?g x"
      by auto
    from food_count_of_positive in_fc [OF x] have "1 \<le> count (snd x)"
      by blast
    with food_count_of_entries [OF in_fc [OF x]] e show ?thesis
      by (simp del: true_div.simps)
  qed
  have view: "map (\<lambda>e. (r_food e, r_top_count e, r_avg_calories e)) ?RR = map ?W ?S"
    by (rule report_get_top_foods_view)
  have "map (\<lambda>e. (r_food e, r_top_count e)) ?RR
      = map (\<lambda>t. (fst t, fst (snd t))) (map (\<lambda>e. (r_food e, r_top_count e, r_avg_calories e)) ?RR)"
    by simp
  also have "\<dots> = map (\<lambda>x. (fst x, count (snd x))) ?S"
    unfolding view by simp
  finally have rep: "map (\<lambda>e. (r_food e, r_top_count e)) ?RR
      = map (\<lambda>e. (food e, top_count e)) (map ?g ?S)"
    by simp
  have rent: "r_avg_calories e
             = true_div (py_sum (map item_calories (labelled (r_food e) (all_items ms))))
                 (PInt (r_top_count e))"
    if "e \<in> set ?RR" for e
  proof -
    from that have "(r_food e, r_top_count e, r_avg_calories e)
        \<in> set (map (\<lambda>e. (r_food e, r_top_count e, r_avg_calories e)) ?RR)"
      by force
    then have "(r_food e, r_top_count e, r_avg_calories e) \<in> set (map ?W ?S)"
      by (simp only: view)
    then obtain x where x: "x \<in> set ?S" and e: "(r_food e, r_top_count e, r_avg_calories e) = ?W x"
      by auto
    from food_count_of_positive in_fc [OF x] have pos: "1 \<le> count (snd x)"
      by blast
    from e pos have e1: "r_food e = fst x" "r_top_count e = count (snd x)"
      "r_avg_calories e = true_div (food_total_calories (snd x)) (PInt (count (snd x)))"
      by (simp_all del: true_div.simps)
    show ?thesis
      by (simp only: e1 food_count_of_entries(2) [OF in_fc [OF x]])
  qed
  from r pre tot len dis sorted_foods_order ent rep rent show ?thesis
    by blast
qed

theorem top_foods_ranking_witness:
  "(\<exists>r. get_top_foods food_meals 3 = Inr r
     \<and> map (\<lambda>e. (food e, top_count e)) r = [(''rice'', 3), (''egg'', 2), (''tofu'', 1)]
     \<and> length r \<le> 3
     \<and> list_all (\<lambda>e. 1 \<le> top_count e) r
     \<and> map (\<lambda>e. (r_food e, r_top_count e)) (report_get_top_foods food_meals 3)
          = [(''rice'', 3), (''egg'', 2), (''tofu'', 1)]
     \<and> int (length (all_items food_meals)) = 7)
   \<and> get_top_foods rice_meals 10 =
        Inr [\<lparr>food = ''rice'', top_count = 2, avg_calories = json_float (111 / 100),
              avg_protein = json_float 0\<rparr>]
   \<and> map r_avg_calories (report_get_top_foods food_meals 1)
        = [PFloat (4691249611844267 / 35184372088832)]"
proof -
  have s: "map (\<lambda>x. (fst x, count (snd x))) (sorted_foods food_meals)
      = [(''rice'', 3), (''egg'', 2), (''tofu'', 1), (''unknown'', 1)]"
    by (simp add: sorted_foods_def food_count_of_def count_item_def food_fixture_defs
        item_defs access_defs)
  have l: "int (length (all_items food_meals)) = 7"
    by (simp add: all_items_def food_fixture_defs access_defs)
  from top_foods_ranking [of food_meals 3]
  obtain r where r: "get_top_foods food_meals 3 = Inr r"
    and p: "map (\<lambda>e. (food e, top_count e)) r
         = py_slice_to 3 (map (\<lambda>x. (fst x, count (snd x))) (sorted_foods food_meals))"
    and n: "(0 :: int) \<le> 3 \<longrightarrow> length r \<le> nat 3"
    and c: "\<forall>e\<in>set r. 1 \<le> top_count e"
    and q: "map (\<lambda>e. (r_food e, r_top_count e)) (report_get_top_foods food_meals 3)
         = map (\<lambda>e. (food e, top_count e)) r"
    by blast
  from p have "map (\<lambda>e. (food e, top_count e)) r = [(''rice'', 3), (''egg'', 2), (''tofu'', 1)]"
    by (simp add: s py_slice_to_def)
  with r q l n c have one: "\<exists>r. get_top_foods food_meals 3 = Inr r
     \<and> map (\<lambda>e. (food e, top_count e)) r = [(''rice'', 3), (''egg'', 2), (''tofu'', 1)]
     \<and> length r \<le> 3
     \<and> list_all (\<lambda>e. 1 \<le> top_count e) r
     \<and> map (\<lambda>e. (r_food e, r_top_count e)) (report_get_top_foods food_meals 3)
          = [(''rice'', 3), (''egg'', 2), (''tofu'', 1)]
     \<and> int (length (all_items food_meals)) = 7"
    by (simp add: list_all_iff)
  have two: "get_top_foods rice_meals 10 =
        Inr [\<lparr>food = ''rice'', top_count = 2, avg_calories = json_float (111 / 100),
              avg_protein = json_float 0\<rparr>]"
    by (simp add: top_foods_eval_defs rice_meals_def meal_with_items_def sample_item_def
        item_defs access_defs)
  have three: "map r_avg_calories (report_get_top_foods food_meals 1)
        = [PFloat (4691249611844267 / 35184372088832)]"
    by (simp add: report_get_top_foods_def report_food_count_def report_count_item_def
        py_slice_to_def food_fixture_defs item_defs access_defs fl_eval)
  from one two three show ?thesis
    by blast
qed

subsection \<open>Grouping by day against the totals\<close>

lemma group_by_day_loop_fold:
  "\<forall>m\<in>set ms. consumedAt m \<noteq> None \<Longrightarrow>
   group_by_day_loop ms acc =
     Inr (foldl (\<lambda>a m. dict_update (meal_ordinal m) new_daily (add_to_day m) a) acc ms)"
  by (induction ms arbitrary: acc) (auto simp: meal_ordinal_def)

lemma on_day_ordinal:
  "\<forall>m\<in>set ms. consumedAt m \<noteq> None \<Longrightarrow>
   filter (\<lambda>m. meal_ordinal m = d) ms = on_day d ms"
  unfolding on_day_def
  by (rule filter_cong) (auto simp: meal_ordinal_def meal_day_def)

lemma meal_days_ordinal:
  "\<forall>m\<in>set ms. consumedAt m \<noteq> None \<Longrightarrow> meal_days ms = map meal_ordinal ms"
  by (induction ms) (auto simp: meal_days_def meal_ordinal_def List.map_filter_simps)

lemma foldl_add_to_totals:
  "calories (foldl add_to_totals t ms) = foldl py_add (calories t) (map meal_calories ms)"
  "protein (foldl add_to_totals t ms) = foldl py_add (protein t) (map meal_protein ms)"
  "carbs (foldl add_to_totals t ms) = foldl py_add (carbs t) (map meal_carbs ms)"
  "fat (foldl add_to_totals t ms) = foldl py_add (fat t) (map meal_fat ms)"
  "fiber (foldl add_to_totals t ms) = foldl py_add (fiber t) (map meal_fiber ms)"
  by (induction ms arbitrary: t) (simp_all add: add_to_totals_def)

lemma calculate_totals_sums:
  "calculate_totals ms =
     \<lparr>calories = py_sum (map meal_calories ms), protein = py_sum (map meal_protein ms),
      carbs = py_sum (map meal_carbs ms), fat = py_sum (map meal_fat ms),
      fiber = py_sum (map meal_fiber ms)\<rparr>"
  by (simp add: calculate_totals_def foldl_add_to_totals py_sum_def)

lemma foldl_py_add_ints:
  "\<forall>a\<in>set xs. is_int a \<Longrightarrow>
   foldl py_add (PInt k) xs = PInt (k + sum_list (map py_int xs))"
proof (induction xs arbitrary: k)
  case Nil
  then show ?case by simp
next
  case (Cons a xs)
  then obtain n where a: "a = PInt n"
    by (cases a) (auto simp: is_int_def)
  from Cons.IH [of "k + n"] Cons.prems a show ?case
    by (simp add: py_int_def add.assoc)
qed

lemma py_sum_ints:
  "\<forall>a\<in>set xs. is_int a \<Longrightarrow> py_sum xs = PInt (sum_list (map py_int xs))"
  using foldl_py_add_ints [of xs 0] by (simp add: py_sum_def)

lemma sum_list_single_key:
  fixes c :: "'n :: comm_monoid_add"
  shows "distinct ks \<Longrightarrow> k0 \<in> set ks \<Longrightarrow>
    sum_list (map (\<lambda>k. if k0 = k then c else 0) ks) = c"
proof (induction ks)
  case Nil
  then show ?case by simp
next
  case (Cons k ks)
  show ?case
  proof (cases "k0 = k")
    case True
    with Cons.prems have "k0 \<notin> set ks" by simp
    then have "sum_list (map (\<lambda>k. if k0 = k then c else 0) ks) = 0"
      by (induction ks) auto
    with True show ?thesis by simp
  next
    case False
    with Cons show ?thesis by simp
  qed
qed

lemma sum_by_key:
  fixes h :: "'a \<Rightarrow> 'n :: comm_monoid_add"
  assumes "distinct ks" and "key ` set items \<subseteq> set ks"
  shows "sum_list (map (\<lambda>k. sum_list (map h (filter (\<lambda>i. key i = k) items))) ks)
           = sum_list (map h items)"
  using assms(2)
proof (induction items)
  case Nil
  then show ?case by simp
next
  case (Cons i items)
  have "sum_list (map (\<lambda>k. sum_list (map h (filter (\<lambda>j. key j = k) (i # items)))) ks)
      = sum_list (map (\<lambda>k. (if key i = k then h i else 0)
                          + sum_list (map h (filter (\<lambda>j. key j = k) items))) ks)"
    by (rule arg_cong [where f = sum_list], rule map_cong) auto
  also have "\<dots> = sum_list (map (\<lambda>k. if key i = k then h i else 0) ks)
      + sum_list (map (\<lambda>k. sum_list (map h (filter (\<lambda>j. key j = k) items))) ks)"
    by (simp add: sum_list_addf)
  also have "\<dots> = h i + sum_list (map h items)"
    using Cons assms(1) by (simp add: sum_list_single_key)
  finally show ?case by simp
qed

lemma day_step:
  "(\<lambda>a m. dict_update (meal_ordinal m) new_daily (add_to_day m) a) fc i
     = dict_update (meal_ordinal i) new_daily (add_to_day i) fc"
  by simp

lemma group_by_day_entries:
  assumes parse: "\<forall>m\<in>set ms. consumedAt m \<noteq> None"
    and g: "group_by_day ms = Inr g"
  shows "distinct (map fst g)"
    and "set (map fst g) = set (meal_days ms)"
    and "sorted_wrt (\<lambda>a b. first_index a (meal_days ms) < first_index b (meal_days ms))
           (map fst g)"
    and "\<forall>x\<in>set g.
           d_count (snd x) = int (length (on_day (fst x) ms))
           \<and> d_calories (snd x) = py_sum (map meal_calories (on_day (fst x) ms))
           \<and> d_protein (snd x) = py_sum (map meal_protein (on_day (fst x) ms))
           \<and> d_carbs (snd x) = py_sum (map meal_carbs (on_day (fst x) ms))
           \<and> d_fat (snd x) = py_sum (map meal_fat (on_day (fst x) ms))"
    and "sum_list (map (\<lambda>x. d_count (snd x)) g) = int (length ms)"
proof -
  let ?step = "\<lambda>a m. dict_update (meal_ordinal m) new_daily (add_to_day m) a"
  from g group_by_day_loop_fold [OF parse, of "[]"] have gf: "g = foldl ?step [] ms"
    by (simp add: group_by_day_def)
  note keys = agg_keys
    [where step = ?step and key = meal_ordinal and dflt = new_daily and upd = add_to_day
       and items = ms, OF day_step]
  from keys show "distinct (map fst g)"
    by (simp add: gf)
  from keys show "set (map fst g) = set (meal_days ms)"
    by (simp add: gf meal_days_ordinal [OF parse])
  from keys show "sorted_wrt (\<lambda>a b. first_index a (meal_days ms) < first_index b (meal_days ms))
           (map fst g)"
    by (simp add: gf meal_days_ordinal [OF parse])
  note per_day = agg_entry_sum
    [where step = ?step and key = meal_ordinal and dflt = new_daily and upd = add_to_day
       and items = ms, OF day_step, rule_format]
  note per_day_fold = agg_entry_fold
    [where step = ?step and key = meal_ordinal and dflt = new_daily and upd = add_to_day
       and items = ms and opr = py_add and z = "PInt 0", OF day_step, rule_format]
  show "\<forall>x\<in>set g.
           d_count (snd x) = int (length (on_day (fst x) ms))
           \<and> d_calories (snd x) = py_sum (map meal_calories (on_day (fst x) ms))
           \<and> d_protein (snd x) = py_sum (map meal_protein (on_day (fst x) ms))
           \<and> d_carbs (snd x) = py_sum (map meal_carbs (on_day (fst x) ms))
           \<and> d_fat (snd x) = py_sum (map meal_fat (on_day (fst x) ms))"
  proof
    fix x assume "x \<in> set g"
    then have x: "x \<in> set (foldl ?step [] ms)"
      by (simp add: gf)
    have "d_count (snd x)
        = sum_list (map (\<lambda>i. 1) (filter (\<lambda>m. meal_ordinal m = fst x) ms))"
      by (rule per_day [where g = d_count and h = "\<lambda>i. 1", OF _ _ x])
        (simp_all add: add_to_day_def new_daily_def)
    then have c: "d_count (snd x) = int (length (on_day (fst x) ms))"
      by (simp add: sum_list_triv on_day_ordinal [OF parse])
    have "d_calories (snd x)
        = foldl py_add (PInt 0) (map meal_calories (filter (\<lambda>m. meal_ordinal m = fst x) ms))"
      by (rule per_day_fold [where g = d_calories and h = meal_calories, OF _ _ x])
        (simp_all add: add_to_day_def new_daily_def)
    then have k: "d_calories (snd x) = py_sum (map meal_calories (on_day (fst x) ms))"
      by (simp add: py_sum_def on_day_ordinal [OF parse])
    have "d_protein (snd x)
        = foldl py_add (PInt 0) (map meal_protein (filter (\<lambda>m. meal_ordinal m = fst x) ms))"
      by (rule per_day_fold [where g = d_protein and h = meal_protein, OF _ _ x])
        (simp_all add: add_to_day_def new_daily_def)
    then have p: "d_protein (snd x) = py_sum (map meal_protein (on_day (fst x) ms))"
      by (simp add: py_sum_def on_day_ordinal [OF parse])
    have "d_carbs (snd x)
        = foldl py_add (PInt 0) (map meal_carbs (filter (\<lambda>m. meal_ordinal m = fst x) ms))"
      by (rule per_day_fold [where g = d_carbs and h = meal_carbs, OF _ _ x])
        (simp_all add: add_to_day_def new_daily_def)
    then have cb: "d_carbs (snd x) = py_sum (map meal_carbs (on_day (fst x) ms))"
      by (simp add: py_sum_def on_day_ordinal [OF parse])
    have "d_fat (snd x)
        = foldl py_add (PInt 0) (map meal_fat (filter (\<lambda>m. meal_ordinal m = fst x) ms))"
      by (rule per_day_fold [where g = d_fat and h = meal_fat, OF _ _ x])
        (simp_all add: add_to_day_def new_daily_def)
    then have f: "d_fat (snd x) = py_sum (map meal_fat (on_day (fst x) ms))"
      by (simp add: py_sum_def on_day_ordinal [OF parse])
    from c k p cb f show "d_count (snd x) = int (length (on_day (fst x) ms))
           \<and> d_calories (snd x) = py_sum (map meal_calories (on_day (fst x) ms))
           \<and> d_protein (snd x) = py_sum (map meal_protein (on_day (fst x) ms))
           \<and> d_carbs (snd x) = py_sum (map meal_carbs (on_day (fst x) ms))
           \<and> d_fat (snd x) = py_sum (map meal_fat (on_day (fst x) ms))"
      by blast
  qed
  have "sum_list (map (\<lambda>x. d_count (snd x)) (foldl ?step [] ms))
      = sum_list (map (\<lambda>i. 1) ms)"
    by (rule agg_total_sum
        [where step = ?step and key = meal_ordinal and dflt = new_daily and upd = add_to_day
           and g = d_count and h = "\<lambda>i. 1", OF day_step])
      (simp_all add: add_to_day_def new_daily_def)
  then show "sum_list (map (\<lambda>x. d_count (snd x)) g) = int (length ms)"
    by (simp add: gf sum_list_triv)
qed

lemma group_by_day_int_sum:
  assumes parse: "\<forall>m\<in>set ms. consumedAt m \<noteq> None"
    and g: "group_by_day ms = Inr g"
    and ints: "\<forall>m\<in>set ms. is_int (meal_calories m)"
  shows "py_sum (map (\<lambda>x. d_calories (snd x)) g) = calories (calculate_totals ms)"
proof -
  let ?h = "\<lambda>m. py_int (meal_calories m)"
  note e = group_by_day_entries [OF parse g]
  have day_ints: "\<forall>a\<in>set (map meal_calories (on_day d ms)). is_int a" for d
    using ints by (auto simp: on_day_def)
  have ent: "d_calories (snd x)
      = PInt (sum_list (map ?h (filter (\<lambda>m. meal_ordinal m = fst x) ms)))"
    if "x \<in> set g" for x
    using e(4) that py_sum_ints [OF day_ints [of "fst x"]]
    by (simp add: on_day_ordinal [OF parse] comp_def)
  then have all_int: "\<forall>a\<in>set (map (\<lambda>x. d_calories (snd x)) g). is_int a"
    by (auto simp: is_int_def)
  have "py_sum (map (\<lambda>x. d_calories (snd x)) g)
      = PInt (sum_list (map py_int (map (\<lambda>x. d_calories (snd x)) g)))"
    by (rule py_sum_ints [OF all_int])
  also have "map py_int (map (\<lambda>x. d_calories (snd x)) g)
      = map (\<lambda>k. sum_list (map ?h (filter (\<lambda>m. meal_ordinal m = k) ms))) (map fst g)"
    using ent by (simp add: py_int_def)
  also have "sum_list \<dots> = sum_list (map ?h ms)"
    using e(2) by (intro sum_by_key [OF e(1)]) (simp add: meal_days_ordinal [OF parse])
  also have "PInt (sum_list (map ?h ms)) = py_sum (map meal_calories ms)"
    using py_sum_ints [of "map meal_calories ms"] ints by (simp add: comp_def)
  finally show ?thesis
    by (simp add: calculate_totals_sums)
qed

text \<open>
  C1 as stated fails: the per-day sums and the totals add the same doubles in different
  orders, and double addition is not associative. Three meals of 0.1, 0.2 and 0.4 kcal, the
  first and the third on the same day: the days hold 0.5 and 0.2, which sum to 0.7, while
  the totals hold \<open>(0.1 + 0.2) + 0.4\<close>, the double 0.7000000000000001.
\<close>

theorem group_by_day_sum_differs:
  "group_by_day fraction_meals =
      Inr [(738886, \<lparr>d_count = 2, d_calories = json_float (1 / 2), d_protein = PInt 0,
                      d_carbs = PInt 0, d_fat = PInt 0\<rparr>),
           (738887, \<lparr>d_count = 1, d_calories = json_float (2 / 10), d_protein = PInt 0,
                      d_carbs = PInt 0, d_fat = PInt 0\<rparr>)]
   \<and> py_sum [json_float (1 / 2), json_float (2 / 10)] = json_float (7 / 10)
   \<and> calories (calculate_totals fraction_meals)
       = PFloat (6305039478318695 / 9007199254740992)
   \<and> num_val (py_sum [json_float (1 / 2), json_float (2 / 10)])
       < num_val (calories (calculate_totals fraction_meals))"
proof -
  have a: "group_by_day fraction_meals =
      Inr [(738886, \<lparr>d_count = 2, d_calories = json_float (1 / 2), d_protein = PInt 0,
                      d_carbs = PInt 0, d_fat = PInt 0\<rparr>),
           (738887, \<lparr>d_count = 1, d_calories = json_float (2 / 10), d_protein = PInt 0,
                      d_carbs = PInt 0, d_fat = PInt 0\<rparr>)]"
    by (simp add: group_by_day_def add_to_day_def new_daily_def fraction_meals_def
        sample_meal_def dt_defs leaf_defs access_defs num_defs fl_eval)
  have b: "py_sum [json_float (1 / 2), json_float (2 / 10)] = json_float (7 / 10)"
    by (simp add: num_defs fl_eval)
  have c: "calories (calculate_totals fraction_meals)
       = PFloat (6305039478318695 / 9007199254740992)"
    by (simp add: calculate_totals_def add_to_totals_def fraction_meals_def
        sample_meal_def leaf_defs access_defs num_defs fl_eval)
  have d: "num_val (py_sum [json_float (1 / 2), json_float (2 / 10)])
       < num_val (calories (calculate_totals fraction_meals))"
    unfolding b c by (simp add: num_defs fl_eval)
  from a b c d show ?thesis
    by blast
qed

text \<open>
  C1, amended. For every list of meal records whose \<open>consumedAt\<close> timestamps all parse,
  \<open>_group_by_day\<close> returns one entry for each calendar day on which a record falls, in the
  order in which the days are first met, and no other entry. The entry of a day holds the
  number of the records of that day and the sums of their calories, protein, carbs and fat,
  accumulated in list order. The per-day counts sum to the number of records (grouping
  never drops or double-counts a record). The calories of \<open>_calculate_totals\<close> are the sum
  of all records' calories accumulated in list order; when every calorie value is an
  \<open>int\<close>, the sum over the days of the per-day calorie sums equals it.
\<close>

theorem group_by_day_partitions:
  assumes "\<forall>m\<in>set ms. consumedAt m \<noteq> None"
  shows "\<exists>g. group_by_day ms = Inr g
     \<and> distinct (map fst g)
     \<and> set (map fst g) = set (meal_days ms)
     \<and> sorted_wrt (\<lambda>a b. first_index a (meal_days ms) < first_index b (meal_days ms))
           (map fst g)
     \<and> (\<forall>x\<in>set g.
           d_count (snd x) = int (length (on_day (fst x) ms))
           \<and> d_calories (snd x) = py_sum (map meal_calories (on_day (fst x) ms))
           \<and> d_protein (snd x) = py_sum (map meal_protein (on_day (fst x) ms))
           \<and> d_carbs (snd x) = py_sum (map meal_carbs (on_day (fst x) ms))
           \<and> d_fat (snd x) = py_sum (map meal_fat (on_day (fst x) ms)))
     \<and> sum_list (map (\<lambda>x. d_count (snd x)) g) = int (length ms)
     \<and> calories (calculate_totals ms) = py_sum (map meal_calories ms)
     \<and> ((\<forall>m\<in>set ms. is_int (meal_calories m)) \<longrightarrow>
          py_sum (map (\<lambda>x. d_calories (snd x)) g) = calories (calculate_totals ms))"
proof -
  from group_by_day_loop_fold [OF assms, of "[]"]
  obtain g where g: "group_by_day ms = Inr g"
    by (simp add: group_by_day_def)
  note e = group_by_day_entries [OF assms g]
  have t: "calories (calculate_totals ms) = py_sum (map meal_calories ms)"
    by (simp add: calculate_totals_sums)
  have i: "(\<forall>m\<in>set ms. is_int (meal_calories m)) \<longrightarrow>
          py_sum (map (\<lambda>x. d_calories (snd x)) g) = calories (calculate_totals ms)"
    using group_by_day_int_sum [OF assms g] by blast
  from g e t i show ?thesis
    by blast
qed

theorem group_by_day_partitions_witness:
  "list_all (\<lambda>m. consumedAt m \<noteq> None) two_day_meals
   \<and> group_by_day two_day_meals =
      Inr [(738886, \<lparr>d_count = 2, d_calories = PInt 500, d_protein = PInt 30,
                      d_carbs = PInt 50, d_fat = PInt 15\<rparr>),
           (738887, \<lparr>d_count = 1, d_calories = PInt 650, d_protein = PInt 35,
                      d_carbs = PInt 60, d_fat = PInt 25\<rparr>)]
   \<and> meal_days two_day_meals = [738886, 738887, 738886]
   \<and> map meal_calories (on_day 738886 two_day_meals) = [PInt 500, PInt 0]
   \<and> calories (calculate_totals two_day_meals) = PInt 1150
   \<and> py_sum [PInt 500, PInt 650] = calories (calculate_totals two_day_meals)"
proof -
  let ?G = "[(738886, \<lparr>d_count = 2, d_calories = PInt 500, d_protein = PInt 30,
                      d_carbs = PInt 50, d_fat = PInt 15\<rparr>),
           (738887, \<lparr>d_count = 1, d_calories = PInt 650, d_protein = PInt 35,
                      d_carbs = PInt 60, d_fat = PInt 25\<rparr>)]"
  have h: "\<forall>m\<in>set two_day_meals. consumedAt m \<noteq> None"
    by (simp add: two_day_meals_def sample_meal_def bare_meal_def)
  have ints: "\<forall>m\<in>set two_day_meals. is_int (meal_calories m)"
    by (simp add: two_day_meals_def sample_meal_def bare_meal_def leaf_defs access_defs
        is_int_def)
  have ev: "group_by_day two_day_meals = Inr ?G"
    by (simp add: group_by_day_def add_to_day_def new_daily_def fixture_defs leaf_defs
        access_defs)
  have d: "meal_days two_day_meals = [738886, 738887, 738886]"
    by (simp add: meal_days_def fixture_defs)
  have o: "map meal_calories (on_day 738886 two_day_meals) = [PInt 500, PInt 0]"
    by (simp add: on_day_def meal_day_def fixture_defs leaf_defs access_defs)
  from group_by_day_partitions [OF h] ints obtain g where
    g: "group_by_day two_day_meals = Inr g"
    and s: "py_sum (map (\<lambda>x. d_calories (snd x)) g) = calories (calculate_totals two_day_meals)"
    and t: "calories (calculate_totals two_day_meals) = py_sum (map meal_calories two_day_meals)"
    by blast
  from g ev have "g = ?G"
    by simp
  with s have s': "py_sum [PInt 500, PInt 650] = calories (calculate_totals two_day_meals)"
    by simp
  then have c: "calories (calculate_totals two_day_meals) = PInt 1150"
    by (simp add: py_sum_def)
  from h ev d o c s' show ?thesis
    by (simp add: list_all_iff)
qed

end
